theory Spec2Isabelle
  imports Complex_Main "HOL-Library.Word"
begin

unbundle bit_operations_syntax

section \<open>The item store of \<^verbatim>\<open>main.py\<close>\<close>

text \<open>
  \<^verbatim>\<open>class ItemIn(BaseModel): name: str\<close> and
  \<^verbatim>\<open>class ItemOut(ItemIn): id: int\<close>.
  The field \<^verbatim>\<open>id\<close> is called \<open>item_id\<close> here, since \<open>id\<close> is the identity
  function of HOL. Python's \<^verbatim>\<open>int\<close> is unbounded, hence \<open>int\<close>.
\<close>

record ItemIn =
  name :: string

record ItemOut = ItemIn +
  item_id :: int

text \<open>
  \<^verbatim>\<open>class InMemoryStore\<close>: the list \<^verbatim>\<open>_items\<close> and the counter \<^verbatim>\<open>_next_id\<close>.
\<close>

record InMemoryStore =
  items :: "ItemOut list"
  next_id :: int

text \<open>\<^verbatim>\<open>InMemoryStore.__init__\<close>\<close>

definition InMemoryStore_init :: InMemoryStore where
  "InMemoryStore_init = \<lparr>items = [], next_id = 1\<rparr>"

text \<open>\<^verbatim>\<open>InMemoryStore.list_items\<close>: returns the list, changes nothing.\<close>

definition InMemoryStore_list_items :: "InMemoryStore \<Rightarrow> ItemOut list" where
  "InMemoryStore_list_items s = items s"

text \<open>
  \<^verbatim>\<open>InMemoryStore.add_item\<close>: builds the item with the current counter, appends it,
  increments the counter and returns the item (with the updated store).
\<close>

definition InMemoryStore_add_item :: "string \<Rightarrow> InMemoryStore \<Rightarrow> ItemOut \<times> InMemoryStore" where
  "InMemoryStore_add_item nm s =
     (let item = \<lparr>name = nm, item_id = next_id s\<rparr>
      in (item, s\<lparr>items := items s @ [item], next_id := next_id s + 1\<rparr>))"

text \<open>A run of \<^verbatim>\<open>add_item\<close> calls, one per name, in order.\<close>

fun add_all :: "string list \<Rightarrow> InMemoryStore \<Rightarrow> InMemoryStore" where
  "add_all [] s = s"
| "add_all (nm # nms) s = add_all nms (snd (InMemoryStore_add_item nm s))"

text \<open>
  The invariant of the store: the ids of the stored items increase strictly along the
  list (so they are pairwise different), start at 1 or above, and are all below the
  counter, which is itself at least 1.
\<close>

definition store_inv :: "InMemoryStore \<Rightarrow> bool" where
  "store_inv s \<longleftrightarrow>
     1 \<le> next_id s \<and>
     sorted_wrt (<) (map item_id (items s)) \<and>
     list_all (\<lambda>it. 1 \<le> item_id it \<and> item_id it < next_id s) (items s)"

section \<open>Strings, numbers and JSON values\<close>

text \<open>
  A Python \<^verbatim>\<open>str\<close> is modelled as a \<open>string\<close>, a list of characters with codes 0 to
  255. Header names and values are decoded by Starlette as Latin-1, so they are exactly
  such strings.

  \<open>lower\<close> is \<^verbatim>\<open>.lower()\<close> on the ASCII letters, which is all that a header name
  holds.
\<close>

definition lower_char :: "char \<Rightarrow> char" where
  "lower_char c =
     (case map_of (zip ''ABCDEFGHIJKLMNOPQRSTUVWXYZ'' ''abcdefghijklmnopqrstuvwxyz'') c of
        Some d \<Rightarrow> d
      | None \<Rightarrow> c)"

definition lower :: "string \<Rightarrow> string" where
  "lower s = map lower_char s"

text \<open>\<^verbatim>\<open>str(n)\<close> for an integer: decimal digits, with a minus sign when negative.\<close>

definition digit_char :: "nat \<Rightarrow> char" where
  "digit_char d = ''0123456789abcdef'' ! (d mod 16)"

function str_nat :: "nat \<Rightarrow> string" where
  "str_nat n = (if n < 10 then [digit_char n] else str_nat (n div 10) @ [digit_char (n mod 10)])"
  by pat_completeness auto
termination
  by (relation "measure id") auto

declare str_nat.simps [simp del]

definition str_int :: "int \<Rightarrow> string" where
  "str_int i = (if i < 0 then CHR ''-'' # str_nat (nat (- i)) else str_nat (nat i))"

text \<open>
  JSON values: what \<^verbatim>\<open>json.loads\<close> returns and \<^verbatim>\<open>json.dumps\<close> accepts. An object
  is the list of the items of the Python \<^verbatim>\<open>dict\<close>, in insertion order. A Python
  \<^verbatim>\<open>float\<close> is modelled by the rational number it stands for. Sums and differences
  are taken exact; the rounding of the product in the log line is a parameter of the
  environment (see \<open>float_round\<close> below).
\<close>

datatype json =
    JNull
  | JBool bool
  | JInt int
  | JFloat rat
  | JStr string
  | JArr "json list"
  | JObj "(string \<times> json) list"

text \<open>
  \<^verbatim>\<open>round(x, ndigits)\<close> on a float: the nearest multiple of \<open>10 ^ -ndigits\<close>, a tie
  going to the even one.
\<close>

definition round_half_even :: "rat \<Rightarrow> int" where
  "round_half_even x =
     (let f = \<lfloor>x\<rfloor>; d = x - of_int f
      in if d < 1 / 2 then f else if 1 / 2 < d then f + 1 else if even f then f else f + 1)"

definition py_round :: "rat \<Rightarrow> nat \<Rightarrow> rat" where
  "py_round x ndigits = of_int (round_half_even (x * 10 ^ ndigits)) / 10 ^ ndigits"

text \<open>
  \<^verbatim>\<open>repr\<close> of a float with at most three decimals, as \<^verbatim>\<open>json.dumps\<close> prints it: the
  integer part, a point, and the decimals without trailing zeros (at least one digit).
  Python switches to exponent notation from \<open>1e16\<close> on, which no latency in
  milliseconds reaches; that notation is not represented.
\<close>

definition frac_digits :: "nat \<Rightarrow> string" where
  "frac_digits m =
     (if m mod 1000 = 0 then ''0''
      else if m mod 100 = 0 then [digit_char (m div 100 mod 10)]
      else if m mod 10 = 0 then [digit_char (m div 100 mod 10), digit_char (m div 10 mod 10)]
      else [digit_char (m div 100 mod 10), digit_char (m div 10 mod 10), digit_char (m mod 10)])"

definition float_repr :: "rat \<Rightarrow> string" where
  "float_repr q =
     (let m = nat \<lfloor>\<bar>q\<bar> * 1000\<rfloor>
      in (if q < 0 then ''-'' else []) @ str_nat (m div 1000) @ ''.'' @ frac_digits m)"

text \<open>
  \<^verbatim>\<open>json.dumps\<close> with its defaults (\<^verbatim>\<open>ensure_ascii=True\<close>, separators \<^verbatim>\<open>", "\<close> and
  \<^verbatim>\<open>": "\<close>, no indentation). A string is quoted; the quote and the backslash are
  escaped, so are the control characters and every character outside the printable
  ASCII range (\<^verbatim>\<open>\b \f \n \r \t\<close> by their short form, the others as \<^verbatim>\<open>\uXXXX\<close>).
\<close>

definition hex4 :: "nat \<Rightarrow> string" where
  "hex4 n = [digit_char (n div 4096 mod 16), digit_char (n div 256 mod 16),
             digit_char (n div 16 mod 16), digit_char (n mod 16)]"

definition escape_char :: "char \<Rightarrow> string" where
  "escape_char c =
     (let n = (of_char c :: nat)
      in if n = 92 then [CHR 0x5C, CHR 0x5C]
         else if n = 34 then [CHR 0x5C, CHR 0x22]
         else if n = 8 then [CHR 0x5C, CHR ''b'']
         else if n = 12 then [CHR 0x5C, CHR ''f'']
         else if n = 10 then [CHR 0x5C, CHR ''n'']
         else if n = 13 then [CHR 0x5C, CHR ''r'']
         else if n = 9 then [CHR 0x5C, CHR ''t'']
         else if n < 32 \<or> 126 < n then [CHR 0x5C, CHR ''u''] @ hex4 n
         else [c])"

definition encode_basestring_ascii :: "string \<Rightarrow> string" where
  "encode_basestring_ascii s = [CHR 0x22] @ concat (map escape_char s) @ [CHR 0x22]"

fun dumps :: "json \<Rightarrow> string"
  and dumps_list :: "json list \<Rightarrow> string"
  and dumps_items :: "(string \<times> json) list \<Rightarrow> string"
where
  "dumps JNull = ''null''"
| "dumps (JBool b) = (if b then ''true'' else ''false'')"
| "dumps (JInt i) = str_int i"
| "dumps (JFloat q) = float_repr q"
| "dumps (JStr s) = encode_basestring_ascii s"
| "dumps (JArr xs) = ''['' @ dumps_list xs @ '']''"
| "dumps (JObj kvs) = ''{'' @ dumps_items kvs @ ''}''"
| "dumps_list [] = []"
| "dumps_list [x] = dumps x"
| "dumps_list (x # y # xs) = dumps x @ '', '' @ dumps_list (y # xs)"
| "dumps_items [] = []"
| "dumps_items [(k, v)] = encode_basestring_ascii k @ '': '' @ dumps v"
| "dumps_items ((k, v) # kv # kvs) =
     encode_basestring_ascii k @ '': '' @ dumps v @ '', '' @ dumps_items (kv # kvs)"

text \<open>
  The printable ASCII characters, space to tilde. A text made of them alone holds no
  line break.
\<close>

definition printable :: "char \<Rightarrow> bool" where
  "printable c \<longleftrightarrow> 32 \<le> (of_char c :: nat) \<and> (of_char c :: nat) \<le> 126"

section \<open>Reading the text back\<close>

text \<open>
  The reading side of JSON text, as far as the log line needs it: a decimal integer, a
  decimal number with a point, and a quoted string with its escapes. Each reader
  returns \<open>None\<close> on text it does not accept. They are used to say that what
  \<open>dumps\<close> writes can be parsed, and to which value.
\<close>

definition hex_val :: "char \<Rightarrow> nat option" where
  "hex_val c = map_of (zip ''0123456789abcdef'' [0..<16]) c"

fun digits_value :: "nat \<Rightarrow> string \<Rightarrow> nat option" where
  "digits_value a [] = Some a"
| "digits_value a (c # cs) =
     (case hex_val c of
        None \<Rightarrow> None
      | Some d \<Rightarrow> if d < 10 then digits_value (10 * a + d) cs else None)"

definition nat_of_text :: "string \<Rightarrow> nat option" where
  "nat_of_text s = (if s = [] then None else digits_value 0 s)"

definition int_of_text :: "string \<Rightarrow> int option" where
  "int_of_text s =
     (case s of
        [] \<Rightarrow> None
      | c # cs \<Rightarrow>
          if c = CHR ''-'' then map_option (\<lambda>n. - int n) (nat_of_text cs)
          else map_option int (nat_of_text s))"

definition decimal_of_text :: "string \<Rightarrow> rat option" where
  "decimal_of_text s =
     (let neg = (s \<noteq> [] \<and> hd s = CHR ''-'');
          digits = (if neg then tl s else s);
          ip = takeWhile (\<lambda>c. c \<noteq> CHR ''.'') digits;
          fr = drop (Suc (length ip)) digits
      in if length ip < length digits
         then (case (nat_of_text ip, nat_of_text fr) of
                 (Some a, Some b) \<Rightarrow>
                   Some ((if neg then - 1 else 1) * (of_nat a + of_nat b / 10 ^ length fr))
               | _ \<Rightarrow> None)
         else None)"

text \<open>The character an escape stands for, by the letter after the backslash.\<close>

definition unescape :: "char \<Rightarrow> char option" where
  "unescape c =
     map_of [(CHR 0x22, CHR 0x22), (CHR 0x5C, CHR 0x5C), (CHR ''/'', CHR ''/''),
             (CHR ''b'', CHR 0x08), (CHR ''f'', CHR 0x0C), (CHR ''n'', CHR 0x0A),
             (CHR ''r'', CHR 0x0D), (CHR ''t'', CHR 0x09)] c"

text \<open>
  The inside of a string literal, up to the closing quote, which must end the text. A
  raw control character is refused, as \<^verbatim>\<open>json.loads\<close> does; so is a \<^verbatim>\<open>\uXXXX\<close> above
  255, which no \<open>string\<close> of this model holds.
\<close>

function decode_chars :: "string \<Rightarrow> string option" where
  "decode_chars [] = None"
| "decode_chars (c # cs) =
     (if c = CHR 0x22 then (if cs = [] then Some [] else None)
      else if c = CHR 0x5C then
        (case cs of
           [] \<Rightarrow> None
         | e # rest \<Rightarrow>
             if e = CHR ''u'' then
               (case rest of
                  h1 # h2 # h3 # h4 # rest' \<Rightarrow>
                    (case (hex_val h1, hex_val h2, hex_val h3, hex_val h4) of
                       (Some a, Some b, Some c', Some d) \<Rightarrow>
                         (let n = ((a * 16 + b) * 16 + c') * 16 + d
                          in if n < 256 then map_option ((#) (char_of n)) (decode_chars rest')
                             else None)
                     | _ \<Rightarrow> None)
                | _ \<Rightarrow> None)
             else (case unescape e of
                     None \<Rightarrow> None
                   | Some x \<Rightarrow> map_option ((#) x) (decode_chars rest)))
      else if (of_char c :: nat) < 32 then None
      else map_option ((#) c) (decode_chars cs))"
  by pat_completeness auto
termination
  by (relation "measure length") auto

declare decode_chars.simps [simp del]

definition decode_string :: "string \<Rightarrow> string option" where
  "decode_string s =
     (case s of
        [] \<Rightarrow> None
      | q # cs \<Rightarrow> if q = CHR 0x22 then decode_chars cs else None)"

section \<open>Requests, responses and the process-wide state\<close>

text \<open>
  Header lists are lists of (name, value) pairs, as Starlette keeps them. The server
  hands the request's header names over in lower case (\<open>asgi_headers\<close>);
  \<^verbatim>\<open>Headers.get\<close> lowers the key it is asked for and returns the value of the first
  pair with that name.
\<close>

type_synonym headers = "(string \<times> string) list"

definition asgi_headers :: "headers \<Rightarrow> headers" where
  "asgi_headers raw = map (\<lambda>(k, v). (lower k, v)) raw"

definition headers_get :: "string \<Rightarrow> headers \<Rightarrow> string option" where
  "headers_get key hs = map_of hs (lower key)"

text \<open>
  \<^verbatim>\<open>MutableHeaders.__setitem__\<close>: the first pair with the (lowered) name is
  replaced and every later pair with that name is deleted; without such a pair the new
  one is appended.
\<close>

fun replace_first :: "string \<Rightarrow> string \<Rightarrow> headers \<Rightarrow> headers" where
  "replace_first k v [] = []"
| "replace_first k v ((k', v') # hs) =
     (if k' = k then (k, v) # filter (\<lambda>(a, b). a \<noteq> k) hs
      else (k', v') # replace_first k v hs)"

definition headers_setitem :: "string \<Rightarrow> string \<Rightarrow> headers \<Rightarrow> headers" where
  "headers_setitem key v hs =
     (let set_key = lower key
      in if set_key \<in> set (map fst hs) then replace_first set_key v hs
         else hs @ [(set_key, v)])"

text \<open>
  A request: method (\<^verbatim>\<open>request.method\<close>, here \<open>req_method\<close>), path, headers and
  the parsed JSON body (\<open>None\<close> without a body), and \<^verbatim>\<open>request.state.request_id\<close>, unset (\<open>None\<close>) until the middleware sets it.
\<close>

record request =
  req_method :: string
  path :: string
  req_headers :: headers
  body :: "json option"
  state_request_id :: "string option"

text \<open>\<^verbatim>\<open>REQUEST_COUNT\<close> and \<^verbatim>\<open>REQUEST_LATENCY\<close> are keyed by (method, path, status).\<close>

type_synonym labels = "string \<times> string \<times> string"

text \<open>
  A histogram child of \<^verbatim>\<open>prometheus_client\<close>: the sum of the observations and one
  count per bucket (not cumulated); the last bucket is the one of \<open>+Inf\<close>.
\<close>

record histogram =
  h_sum :: rat
  h_buckets :: "nat list"

text \<open>
  The content of a response before it is rendered: JSON, or the text exposition of the
  registry as it is when \<^verbatim>\<open>generate_latest()\<close> runs (kept as that snapshot; the
  exposition format is not represented).
\<close>

datatype content =
    JsonContent json
  | LatestMetrics "labels \<rightharpoonup> nat" "labels \<rightharpoonup> histogram"

text \<open>
  A response: status code, headers and content. The \<^verbatim>\<open>content-length\<close> and
  \<^verbatim>\<open>content-type\<close> headers, which Starlette derives from the rendered bytes, are not
  represented.
\<close>

record response =
  status_code :: int
  headers :: headers
  content :: content

definition JSONResponse :: "json \<Rightarrow> int \<Rightarrow> response" where
  "JSONResponse c st = \<lparr>status_code = st, headers = [], content = JsonContent c\<rparr>"

text \<open>Exceptions are values: a handler returns \<open>Inl\<close> of one when it raises.\<close>

datatype exn = AttributeError string | Exception string

text \<open>
  The state of the process: the store, the two metrics and the lines written by the
  logger (one per \<^verbatim>\<open>logger.info\<close> call, oldest first).
\<close>

record world =
  store :: InMemoryStore
  REQUEST_COUNT :: "labels \<rightharpoonup> nat"
  REQUEST_LATENCY :: "labels \<rightharpoonup> histogram"
  log_lines :: "string list"

definition init_world :: world where
  "init_world = \<lparr>store = InMemoryStore_init, REQUEST_COUNT = Map.empty,
                  REQUEST_LATENCY = Map.empty, log_lines = []\<rparr>"

text \<open>
  What a request takes from the environment: the two readings of
  \<^verbatim>\<open>time.perf_counter()\<close>, the rounding of the floating-point unit, and the 16 random
  bytes \<^verbatim>\<open>uuid.uuid4()\<close> draws. The product \<^verbatim>\<open>latency * 1000\<close> is a float product:
  the unit rounds the exact product to a float next to it (\<^verbatim>\<open>5e-07 * 1000\<close> is
  \<^verbatim>\<open>0.0005000000000000001\<close>). \<open>float_round\<close> is that rounding; nothing is assumed
  about it.
\<close>

record env =
  t_start :: rat
  t_end :: rat
  float_round :: "rat \<Rightarrow> rat"
  urandom :: "128 word"

section \<open>Metrics\<close>

text \<open>
  \<^verbatim>\<open>REQUEST_COUNT.labels(**labels).inc()\<close>: the child is created at 0 when the label
  set is new, then incremented.
\<close>

definition counter_value :: "(labels \<rightharpoonup> nat) \<Rightarrow> labels \<Rightarrow> nat" where
  "counter_value m l = (case m l of None \<Rightarrow> 0 | Some v \<Rightarrow> v)"

definition counter_inc :: "labels \<Rightarrow> (labels \<rightharpoonup> nat) \<Rightarrow> (labels \<rightharpoonup> nat)" where
  "counter_inc l m = m(l \<mapsto> counter_value m l + 1)"

text \<open>
  \<^verbatim>\<open>REQUEST_LATENCY.labels(**labels).observe(latency)\<close> with the default buckets of
  \<^verbatim>\<open>prometheus_client\<close>: the sum grows by the amount and the first bucket whose
  bound is not below the amount is incremented; the bucket after the last finite bound
  is \<open>+Inf\<close> and takes every amount.
\<close>

definition DEFAULT_BUCKETS :: "rat list" where
  "DEFAULT_BUCKETS = [5 / 1000, 1 / 100, 25 / 1000, 5 / 100, 75 / 1000, 1 / 10, 25 / 100,
                      5 / 10, 75 / 100, 1, 25 / 10, 5, 75 / 10, 10]"

definition new_histogram :: histogram where
  "new_histogram = \<lparr>h_sum = 0, h_buckets = replicate (length DEFAULT_BUCKETS + 1) 0\<rparr>"

fun observe_buckets :: "rat list \<Rightarrow> rat \<Rightarrow> nat list \<Rightarrow> nat list" where
  "observe_buckets bounds x [] = []"
| "observe_buckets [] x (c # cs) = Suc c # cs"
| "observe_buckets (b # bounds) x (c # cs) =
     (if x \<le> b then Suc c # cs else c # observe_buckets bounds x cs)"

definition observe :: "rat \<Rightarrow> histogram \<Rightarrow> histogram" where
  "observe x h = \<lparr>h_sum = h_sum h + x, h_buckets = observe_buckets DEFAULT_BUCKETS x (h_buckets h)\<rparr>"

definition histogram_at :: "(labels \<rightharpoonup> histogram) \<Rightarrow> labels \<Rightarrow> histogram" where
  "histogram_at m l = (case m l of None \<Rightarrow> new_histogram | Some h \<Rightarrow> h)"

definition histogram_observe ::
  "labels \<Rightarrow> rat \<Rightarrow> (labels \<rightharpoonup> histogram) \<Rightarrow> (labels \<rightharpoonup> histogram)" where
  "histogram_observe l x m = m(l \<mapsto> observe x (histogram_at m l))"

text \<open>The number of observations a histogram child holds (its \<^verbatim>\<open>_count\<close> series).\<close>

definition h_count :: "histogram \<Rightarrow> nat" where
  "h_count h = sum_list (h_buckets h)"

text \<open>Every histogram child of a registry has one count per bucket.\<close>

definition registry_ok :: "(labels \<rightharpoonup> histogram) \<Rightarrow> bool" where
  "registry_ok m \<longleftrightarrow> (\<forall>h \<in> ran m. length (h_buckets h) = length DEFAULT_BUCKETS + 1)"

section \<open>The request id\<close>

text \<open>
  \<^verbatim>\<open>uuid.uuid4()\<close> builds a 128-bit integer from 16 random bytes and forces the variant
  and version bits; \<^verbatim>\<open>.hex\<close> prints it as 32 hexadecimal digits.
\<close>

definition uuid4_int :: "128 word \<Rightarrow> 128 word" where
  "uuid4_int r =
     (((r AND NOT (push_bit 48 0xc000)) OR push_bit 48 0x8000)
        AND NOT (push_bit 64 0xf000)) OR push_bit 76 4"

definition hex_digits :: "nat \<Rightarrow> nat \<Rightarrow> string" where
  "hex_digits k n = map (\<lambda>i. digit_char (n div 16 ^ i)) (rev [0..<k])"

definition uuid4_hex :: "128 word \<Rightarrow> string" where
  "uuid4_hex r = hex_digits 32 (unat (uuid4_int r))"

text \<open>
  \<^verbatim>\<open>_request_id\<close> (here \<open>request_id_of\<close>, since a name cannot start with an
  underscore):
  \<^verbatim>\<open>request.headers.get("x-request-id") or uuid.uuid4().hex\<close>. Python's \<^verbatim>\<open>or\<close> takes
  the right operand when the left one is \<^verbatim>\<open>None\<close> or the empty string.
\<close>

definition request_id_of :: "env \<Rightarrow> request \<Rightarrow> string" where
  "request_id_of e request =
     (case headers_get ''x-request-id'' (req_headers request) of
        None \<Rightarrow> uuid4_hex (urandom e)
      | Some v \<Rightarrow> if v = [] then uuid4_hex (urandom e) else v)"

section \<open>The middleware\<close>

text \<open>
  \<^verbatim>\<open>RequestContextMiddleware.dispatch\<close>. \<open>call_next\<close> is the rest of the
  application; it returns \<open>Inl\<close> of the exception when it raises, and then nothing
  after the \<^verbatim>\<open>await\<close> runs: the exception leaves \<open>dispatch\<close> as it came.
\<close>

type_synonym handler = "request \<Rightarrow> world \<Rightarrow> (exn + response) \<times> world"

definition log_record :: "env \<Rightarrow> string \<Rightarrow> request \<Rightarrow> response \<Rightarrow> rat \<Rightarrow> json" where
  "log_record e request_id request resp latency =
     JObj [(''request_id'', JStr request_id),
           (''method'', JStr (req_method request)),
           (''path'', JStr (path request)),
           (''status'', JInt (status_code resp)),
           (''latency_ms'', JFloat (py_round (float_round e (latency * 1000)) 3))]"

definition dispatch :: "handler \<Rightarrow> env \<Rightarrow> request \<Rightarrow> world \<Rightarrow> (exn + response) \<times> world" where
  "dispatch call_next e request w =
     (let request_id = request_id_of e request;
          request' = request\<lparr>state_request_id := Some request_id\<rparr>;
          start = t_start e
      in case call_next request' w of
           (Inl err, w1) \<Rightarrow> (Inl err, w1)
         | (Inr resp, w1) \<Rightarrow>
             (let latency = t_end e - start;
                  labels = (req_method request', path request', str_int (status_code resp));
                  w2 = w1\<lparr>REQUEST_COUNT := counter_inc labels (REQUEST_COUNT w1)\<rparr>;
                  w3 = w2\<lparr>REQUEST_LATENCY := histogram_observe labels latency (REQUEST_LATENCY w2)\<rparr>;
                  resp' = resp\<lparr>headers := headers_setitem ''x-request-id'' request_id (headers resp)\<rparr>;
                  line = dumps (log_record e request_id request' resp' latency)
              in (Inr resp', w3\<lparr>log_lines := log_lines w3 @ [line]\<rparr>)))"

section \<open>The handlers\<close>

text \<open>
  Reading \<^verbatim>\<open>request.state.request_id\<close> raises \<^verbatim>\<open>AttributeError\<close> when nothing has
  set it.
\<close>

definition no_request_id :: exn where
  "no_request_id = AttributeError ''request_id''"

definition model_dump :: "ItemOut \<Rightarrow> json" where
  "model_dump item = JObj [(''name'', JStr (name item)), (''id'', JInt (item_id item))]"

definition health :: handler where
  "health request w =
     (case state_request_id request of
        None \<Rightarrow> (Inl no_request_id, w)
      | Some rid \<Rightarrow>
          (Inr (JSONResponse (JObj [(''status'', JStr ''ok''), (''request_id'', JStr rid)]) 200), w))"

definition list_items :: handler where
  "list_items request w =
     (let its = map model_dump (InMemoryStore_list_items (store w))
      in case state_request_id request of
           None \<Rightarrow> (Inl no_request_id, w)
         | Some rid \<Rightarrow>
             (Inr (JSONResponse
                     (JObj [(''items'', JArr its), (''count'', JInt (int (length its))),
                            (''request_id'', JStr rid)]) 200), w))"

text \<open>
  \<^verbatim>\<open>create_item\<close> adds the item first and reads the request id after, so the item
  stays in the store when that read raises.
\<close>

definition create_item :: "ItemIn \<Rightarrow> handler" where
  "create_item payload request w =
     (let (item, s) = InMemoryStore_add_item (name payload) (store w);
          w' = w\<lparr>store := s\<rparr>
      in case state_request_id request of
           None \<Rightarrow> (Inl no_request_id, w')
         | Some rid \<Rightarrow>
             (Inr (JSONResponse
                     (JObj [(''item'', model_dump item), (''request_id'', JStr rid)]) 201), w'))"

definition metrics :: handler where
  "metrics request w =
     (Inr \<lparr>status_code = 200, headers = [],
           content = LatestMetrics (REQUEST_COUNT w) (REQUEST_LATENCY w)\<rparr>, w)"

definition root :: handler where
  "root request w =
     (case state_request_id request of
        None \<Rightarrow> (Inl no_request_id, w)
      | Some rid \<Rightarrow>
          (Inr (JSONResponse
                  (JObj [(''message'', JStr ''DevOps demo API''), (''request_id'', JStr rid)]) 200), w))"

section \<open>Validation of the body and routing\<close>

text \<open>
  The parameter \<^verbatim>\<open>payload: ItemIn\<close> makes FastAPI validate the JSON body against
  the model before \<^verbatim>\<open>create_item\<close> is called. The only field is \<^verbatim>\<open>name: str\<close>: it is
  required and must be a JSON string; no constraint on its length is declared. A
  failure is answered with status 422 and the list of errors under \<^verbatim>\<open>detail\<close>, each with
  its type, location, message and input. (A body that is not JSON at all is not
  represented.)
\<close>

record validation_error =
  v_type :: string
  v_loc :: "string list"
  v_msg :: string
  v_input :: json

definition ItemIn_validate :: "json option \<Rightarrow> validation_error list + ItemIn" where
  "ItemIn_validate b =
     (case b of
        None \<Rightarrow>
          Inl [\<lparr>v_type = ''missing'', v_loc = [''body''], v_msg = ''Field required'',
                 v_input = JNull\<rparr>]
      | Some JNull \<Rightarrow>
          Inl [\<lparr>v_type = ''missing'', v_loc = [''body''], v_msg = ''Field required'',
                 v_input = JNull\<rparr>]
      | Some (JObj kvs) \<Rightarrow>
          (case map_of kvs ''name'' of
             None \<Rightarrow>
               Inl [\<lparr>v_type = ''missing'', v_loc = [''body'', ''name''],
                      v_msg = ''Field required'', v_input = JObj kvs\<rparr>]
           | Some (JStr s) \<Rightarrow> Inr \<lparr>name = s\<rparr>
           | Some v \<Rightarrow>
               Inl [\<lparr>v_type = ''string_type'', v_loc = [''body'', ''name''],
                      v_msg = ''Input should be a valid string'', v_input = v\<rparr>])
      | Some v \<Rightarrow>
          Inl [\<lparr>v_type = ''model_attributes_type'', v_loc = [''body''],
                 v_msg = ''Input should be a valid dictionary or object to extract fields from'',
                 v_input = v\<rparr>])"

definition error_json :: "validation_error \<Rightarrow> json" where
  "error_json err =
     JObj [(''type'', JStr (v_type err)), (''loc'', JArr (map JStr (v_loc err))),
           (''msg'', JStr (v_msg err)), (''input'', v_input err)]"

definition validation_response :: "validation_error list \<Rightarrow> response" where
  "validation_response errs = JSONResponse (JObj [(''detail'', JArr (map error_json errs))]) 422"

definition post_items :: handler where
  "post_items request w =
     (case ItemIn_validate (body request) of
        Inl errs \<Rightarrow> (Inr (validation_response errs), w)
      | Inr payload \<Rightarrow> create_item payload request w)"

text \<open>
  The routes declared by the decorators of \<^verbatim>\<open>main.py\<close>. Every other request is
  answered by the framework (404, 405, its documentation pages, redirects): \<open>fallback\<close>
  gives that response, which touches neither the store nor the metrics.
\<close>

definition route :: "(request \<Rightarrow> response) \<Rightarrow> handler" where
  "route fallback request w =
     (if req_method request = ''GET'' \<and> path request = ''/health'' then health request w
      else if req_method request = ''GET'' \<and> path request = ''/items'' then list_items request w
      else if req_method request = ''POST'' \<and> path request = ''/items'' then post_items request w
      else if req_method request = ''GET'' \<and> path request = ''/metrics'' then metrics request w
      else if req_method request = ''GET'' \<and> path request = ''/'' then root request w
      else (Inr (fallback request), w))"

text \<open>\<^verbatim>\<open>app.add_middleware(RequestContextMiddleware)\<close>: every request goes through it.\<close>

definition app :: "(request \<Rightarrow> response) \<Rightarrow> env \<Rightarrow> request \<Rightarrow> world \<Rightarrow> (exn + response) \<times> world" where
  "app fallback e request w = dispatch (route fallback) e request w"

text \<open>The process serving a sequence of requests, one after the other.\<close>

fun serve :: "(request \<Rightarrow> response) \<Rightarrow> (env \<times> request) list \<Rightarrow> world \<Rightarrow> world" where
  "serve fallback [] w = w"
| "serve fallback ((e, request) # rs) w = serve fallback rs (snd (app fallback e request w))"

section \<open>The requests that add an item\<close>

text \<open>
  The name a request adds to the store: it is a \<^verbatim>\<open>POST /items\<close> whose body passes the
  validation. \<open>posted_names\<close> collects these names along a sequence of requests.
\<close>

definition posted_name :: "request \<Rightarrow> string option" where
  "posted_name request =
     (if req_method request = ''POST'' \<and> path request = ''/items''
      then (case ItemIn_validate (body request) of Inl errs \<Rightarrow> None | Inr payload \<Rightarrow> Some (name payload))
      else None)"

definition posted_names :: "(env \<times> request) list \<Rightarrow> string list" where
  "posted_names rs = List.map_filter (\<lambda>(e, request). posted_name request) rs"

section \<open>Example inputs\<close>

definition example_env :: env where
  "example_env = \<lparr>t_start = 10, t_end = 10 + 12345 / 1000000, float_round = (\<lambda>x. x),
                   urandom = 0x0123456789abcdef0123456789abcdef\<rparr>"

definition not_found :: "request \<Rightarrow> response" where
  "not_found request = JSONResponse (JObj [(''detail'', JStr ''Not Found'')]) 404"

definition POST_items :: "json \<Rightarrow> request" where
  "POST_items b = \<lparr>req_method = ''POST'', path = ''/items'', req_headers = [], body = Some b,
                    state_request_id = None\<rparr>"

definition GET :: "string \<Rightarrow> headers \<Rightarrow> request" where
  "GET p raw = \<lparr>req_method = ''GET'', path = p, req_headers = asgi_headers raw, body = None,
                 state_request_id = None\<rparr>"

definition raising :: handler where
  "raising request w = (Inl (Exception ''boom''), w)"

section \<open>Properties of the store\<close>

lemma store_inv_init: "store_inv InMemoryStore_init"
  by (simp add: store_inv_def InMemoryStore_init_def)

lemma store_inv_add:
  assumes "store_inv s"
  shows "store_inv (snd (InMemoryStore_add_item nm s))"
proof -
  have lt: "\<forall>i \<in> set (map item_id (items s)). i < next_id s"
    using assms by (auto simp: store_inv_def list_all_iff)
  have "sorted_wrt (<) (map item_id (items s) @ [next_id s])"
    using assms lt by (simp add: store_inv_def sorted_wrt_append)
  moreover have "list_all (\<lambda>it. 1 \<le> item_id it \<and> item_id it < next_id s + 1) (items s)"
    using assms by (auto simp: store_inv_def list_all_iff)
  moreover have "1 \<le> next_id s"
    using assms by (simp add: store_inv_def)
  ultimately show ?thesis
    by (simp add: InMemoryStore_add_item_def store_inv_def Let_def)
qed

lemma add_item_simps:
  "fst (InMemoryStore_add_item nm s) = \<lparr>name = nm, item_id = next_id s\<rparr>"
  "items (snd (InMemoryStore_add_item nm s)) = items s @ [\<lparr>name = nm, item_id = next_id s\<rparr>]"
  "next_id (snd (InMemoryStore_add_item nm s)) = next_id s + 1"
  by (simp_all add: InMemoryStore_add_item_def Let_def)

lemma add_all_append: "add_all (xs @ ys) s = add_all ys (add_all xs s)"
  by (induction xs arbitrary: s) simp_all

lemma add_all_snoc: "add_all (xs @ [x]) s = snd (InMemoryStore_add_item x (add_all xs s))"
  by (simp add: add_all_append)

lemma next_id_add_all: "next_id (add_all nms s) = next_id s + int (length nms)"
  by (induction nms arbitrary: s) (simp_all add: add_item_simps)

lemma items_add_all_prefix: "take (length (items s)) (items (add_all nms s)) = items s"
proof (induction nms rule: rev_induct)
  case Nil
  show ?case by simp
next
  case (snoc x xs)
  have "length (items s) \<le> length (items (add_all xs s))"
    using arg_cong [OF snoc.IH, of length] by simp
  then show ?case
    using snoc.IH by (simp add: add_all_snoc add_item_simps)
qed

lemma store_inv_add_all: "store_inv s \<Longrightarrow> store_inv (add_all nms s)"
  by (induction nms arbitrary: s) (simp_all add: store_inv_add)

lemma store_inv_ids_below:
  "store_inv s \<Longrightarrow> it \<in> set (items s) \<Longrightarrow> item_id it < next_id s"
  by (simp add: store_inv_def list_all_iff)

lemma ids_add_all_init:
  "map item_id (items (add_all nms InMemoryStore_init)) = map int [1..<length nms + 1]"
proof (induction nms rule: rev_induct)
  case Nil
  show ?case by (simp add: InMemoryStore_init_def)
next
  case (snoc x xs)
  have "next_id (add_all xs InMemoryStore_init) = 1 + int (length xs)"
    by (simp add: next_id_add_all InMemoryStore_init_def)
  then show ?case
    using snoc.IH by (simp add: add_all_snoc add_item_simps)
qed

lemma names_add_all_init: "map name (items (add_all nms InMemoryStore_init)) = nms"
  by (induction nms rule: rev_induct)
     (simp_all add: add_all_snoc add_item_simps InMemoryStore_init_def)

text \<open>
  C4. The invariant of the item store is kept by every operation of the store. The new
  store satisfies it; the first id handed out is 1; \<open>list_items\<close> only reads; and
  whenever the invariant holds, \<open>add_item\<close> keeps it, the ids stay pairwise different
  and strictly increasing in insertion order, and the new id is above every id already
  in the store. The counter only grows (by one per \<open>add_item\<close>, and never shrinks
  along any run of them), and the items already stored stay where they are, unchanged:
  the new item is appended behind them.
\<close>

theorem store_invariant_preserved:
  "store_inv InMemoryStore_init
   \<and> item_id (fst (InMemoryStore_add_item nm InMemoryStore_init)) = 1
   \<and> InMemoryStore_list_items s = items s
   \<and> (store_inv s \<longrightarrow>
        store_inv (snd (InMemoryStore_add_item nm s))
        \<and> sorted_wrt (<) (map item_id (items (snd (InMemoryStore_add_item nm s))))
        \<and> distinct (map item_id (items (snd (InMemoryStore_add_item nm s))))
        \<and> (\<forall>it \<in> set (items s). item_id it < item_id (fst (InMemoryStore_add_item nm s))))
   \<and> next_id s < next_id (snd (InMemoryStore_add_item nm s))
   \<and> items (snd (InMemoryStore_add_item nm s)) = items s @ [fst (InMemoryStore_add_item nm s)]
   \<and> next_id s \<le> next_id (add_all nms s)
   \<and> take (length (items s)) (items (add_all nms s)) = items s"
proof -
  let ?s' = "snd (InMemoryStore_add_item nm s)"
  have step: "store_inv ?s'
      \<and> sorted_wrt (<) (map item_id (items ?s'))
      \<and> distinct (map item_id (items ?s'))
      \<and> (\<forall>it \<in> set (items s). item_id it < item_id (fst (InMemoryStore_add_item nm s)))"
    if inv: "store_inv s"
  proof -
    have inv': "store_inv ?s'"
      using inv by (rule store_inv_add)
    then have srt: "sorted_wrt (<) (map item_id (items ?s'))"
      by (simp add: store_inv_def)
    then have "distinct (map item_id (items ?s'))"
      by (simp add: strict_sorted_iff)
    moreover have "\<forall>it \<in> set (items s). item_id it < item_id (fst (InMemoryStore_add_item nm s))"
      using inv by (simp add: add_item_simps store_inv_ids_below)
    ultimately show ?thesis
      using inv' srt by blast
  qed
  have "store_inv InMemoryStore_init"
    by (rule store_inv_init)
  moreover have "item_id (fst (InMemoryStore_add_item nm InMemoryStore_init)) = 1"
    by (simp add: add_item_simps InMemoryStore_init_def)
  moreover have "InMemoryStore_list_items s = items s"
    by (simp add: InMemoryStore_list_items_def)
  moreover have "next_id s < next_id ?s'"
    by (simp add: add_item_simps)
  moreover have "items ?s' = items s @ [fst (InMemoryStore_add_item nm s)]"
    by (simp add: add_item_simps)
  moreover have "next_id s \<le> next_id (add_all nms s)"
    by (simp add: next_id_add_all)
  moreover have "take (length (items s)) (items (add_all nms s)) = items s"
    by (rule items_add_all_prefix)
  ultimately show ?thesis
    using step by blast
qed

theorem store_invariant_preserved_witness:
  "store_inv \<lparr>items = [\<lparr>name = ''widget'', item_id = 1\<rparr>], next_id = 2\<rparr>
   \<and> store_inv (snd (InMemoryStore_add_item ''gadget''
                      \<lparr>items = [\<lparr>name = ''widget'', item_id = 1\<rparr>], next_id = 2\<rparr>))
   \<and> items (snd (InMemoryStore_add_item ''gadget''
                      \<lparr>items = [\<lparr>name = ''widget'', item_id = 1\<rparr>], next_id = 2\<rparr>))
       = [\<lparr>name = ''widget'', item_id = 1\<rparr>, \<lparr>name = ''gadget'', item_id = 2\<rparr>]
   \<and> next_id (snd (InMemoryStore_add_item ''gadget''
                      \<lparr>items = [\<lparr>name = ''widget'', item_id = 1\<rparr>], next_id = 2\<rparr>)) = 3"
  using store_invariant_preserved
    [of "''gadget''" "\<lparr>items = [\<lparr>name = ''widget'', item_id = 1\<rparr>], next_id = 2\<rparr>" "[]"]
  by (simp add: store_inv_def add_item_simps)

text \<open>
  C10. After any sequence of \<open>add_item\<close> calls on a store created empty, the counter is
  the number of stored items plus one, the ids are exactly 1, 2, ..., N in insertion
  order, and the item at (zero-based) position \<open>k\<close> has id \<open>k + 1\<close>.
\<close>

theorem add_all_consecutive_ids:
  "next_id (add_all nms InMemoryStore_init) = int (length (items (add_all nms InMemoryStore_init))) + 1
   \<and> length (items (add_all nms InMemoryStore_init)) = length nms
   \<and> map item_id (items (add_all nms InMemoryStore_init)) = map int [1..<length nms + 1]
   \<and> (\<forall>k < length nms. item_id (items (add_all nms InMemoryStore_init) ! k) = int k + 1)"
proof -
  let ?s = "add_all nms InMemoryStore_init"
  have len: "length (items ?s) = length nms"
    using arg_cong [OF names_add_all_init [of nms], of length] by simp
  have "next_id ?s = int (length nms) + 1"
    by (simp add: next_id_add_all InMemoryStore_init_def)
  then have nxt: "next_id ?s = int (length (items ?s)) + 1"
    by (simp only: len)
  have kth: "item_id (items ?s ! k) = int k + 1" if "k < length nms" for k
  proof -
    have "item_id (items ?s ! k) = map item_id (items ?s) ! k"
      using that len by simp
    also have "\<dots> = int ([1..<length nms + 1] ! k)"
      using that by (simp add: ids_add_all_init del: upt_Suc)
    also have "\<dots> = int k + 1"
      using that by (simp del: upt_Suc)
    finally show ?thesis .
  qed
  show ?thesis
    using len nxt kth ids_add_all_init by blast
qed

theorem add_all_consecutive_ids_witness:
  "map item_id (items (add_all [''widget'', ''gadget'', ''gizmo''] InMemoryStore_init)) = [1, 2, 3]
   \<and> next_id (add_all [''widget'', ''gadget'', ''gizmo''] InMemoryStore_init) = 4
   \<and> item_id (items (add_all [''widget'', ''gadget'', ''gizmo''] InMemoryStore_init) ! 1) = 2"
  using add_all_consecutive_ids [of "[''widget'', ''gadget'', ''gizmo'']"]
  by (simp add: upt_rec)

section \<open>Properties of the middleware\<close>

lemma dispatch_Inl:
  "call_next (request\<lparr>state_request_id := Some (request_id_of e request)\<rparr>) w = (Inl err, w1)
   \<Longrightarrow> dispatch call_next e request w = (Inl err, w1)"
  by (simp add: dispatch_def Let_def)

lemma dispatch_Inr:
  "call_next (request\<lparr>state_request_id := Some (request_id_of e request)\<rparr>) w = (Inr resp, w1)
   \<Longrightarrow> dispatch call_next e request w =
       (Inr (resp\<lparr>headers := headers_setitem ''x-request-id'' (request_id_of e request) (headers resp)\<rparr>),
        w1\<lparr>REQUEST_COUNT :=
              counter_inc (req_method request, path request, str_int (status_code resp)) (REQUEST_COUNT w1),
            REQUEST_LATENCY :=
              histogram_observe (req_method request, path request, str_int (status_code resp))
                (t_end e - t_start e) (REQUEST_LATENCY w1),
            log_lines := log_lines w1 @
              [dumps (log_record e (request_id_of e request) request resp (t_end e - t_start e))]\<rparr>)"
  by (simp add: dispatch_def Let_def log_record_def)

lemma lower_x_request_id: "lower ''x-request-id'' = ''x-request-id''"
  by (simp add: lower_def lower_char_def)

lemma map_of_replace_first:
  "k \<in> set (map fst hs) \<Longrightarrow> map_of (replace_first k v hs) k = Some v"
  by (induction hs) force+

lemma map_of_append_new:
  "k \<notin> set (map fst hs) \<Longrightarrow> map_of (hs @ [(k, v)]) k = Some v"
  by (induction hs) auto

lemma headers_get_setitem: "headers_get key (headers_setitem key v hs) = Some v"
  by (simp add: headers_get_def headers_setitem_def Let_def map_of_replace_first map_of_append_new
        del: map_of_append)

lemma filter_replace_first:
  "filter (\<lambda>(a, b). a \<noteq> k) (replace_first k v hs) = filter (\<lambda>(a, b). a \<noteq> k) hs"
  by (induction hs) auto

lemma headers_setitem_others:
  "filter (\<lambda>(a, b). a \<noteq> lower key) (headers_setitem key v hs) = filter (\<lambda>(a, b). a \<noteq> lower key) hs"
  by (simp add: headers_setitem_def Let_def filter_replace_first)

lemma handlers_with_id:
  "health (r\<lparr>state_request_id := Some rid\<rparr>) w =
     (Inr (JSONResponse (JObj [(''status'', JStr ''ok''), (''request_id'', JStr rid)]) 200), w)"
  "list_items (r\<lparr>state_request_id := Some rid\<rparr>) w =
     (Inr (JSONResponse
             (JObj [(''items'', JArr (map model_dump (items (store w)))),
                    (''count'', JInt (int (length (items (store w))))),
                    (''request_id'', JStr rid)]) 200), w)"
  "create_item p (r\<lparr>state_request_id := Some rid\<rparr>) w =
     (Inr (JSONResponse
             (JObj [(''item'', model_dump \<lparr>name = name p, item_id = next_id (store w)\<rparr>),
                    (''request_id'', JStr rid)]) 201),
      w\<lparr>store := snd (InMemoryStore_add_item (name p) (store w))\<rparr>)"
  "root (r\<lparr>state_request_id := Some rid\<rparr>) w =
     (Inr (JSONResponse
             (JObj [(''message'', JStr ''DevOps demo API''), (''request_id'', JStr rid)]) 200), w)"
  by (simp_all add: health_def list_items_def create_item_def root_def Let_def
        InMemoryStore_list_items_def InMemoryStore_add_item_def)

text \<open>
  Behind the middleware no handler of the service raises, and none touches the metrics
  or the log; the store is left alone or grows by one item.
\<close>

lemma route_returns:
  "\<exists>resp w1. route fb (r\<lparr>state_request_id := Some rid\<rparr>) w = (Inr resp, w1)
      \<and> REQUEST_COUNT w1 = REQUEST_COUNT w \<and> REQUEST_LATENCY w1 = REQUEST_LATENCY w
      \<and> log_lines w1 = log_lines w
      \<and> (store w1 = store w \<or> (\<exists>nm. store w1 = snd (InMemoryStore_add_item nm (store w))))"
  by (auto simp add: route_def handlers_with_id post_items_def metrics_def split: sum.splits)

lemma digit_char_inj: "digit_char a = digit_char b \<Longrightarrow> a mod 16 = b mod 16"
proof -
  assume eq: "digit_char a = digit_char b"
  have d: "distinct ''0123456789abcdef''"
    by simp
  have "a mod 16 < length ''0123456789abcdef''" "b mod 16 < length ''0123456789abcdef''"
    by simp_all
  with d eq show ?thesis
    unfolding digit_char_def by (simp only: nth_eq_iff_index_eq)
qed

lemma mod_16_power_eq:
  "(\<forall>i < k. (n div 16 ^ i) mod 16 = (m div 16 ^ i) mod 16) \<Longrightarrow> n mod 16 ^ k = m mod 16 ^ k"
  for n m :: nat
proof (induction k)
  case 0
  show ?case by simp
next
  case (Suc k)
  have "n mod 16 ^ k = m mod 16 ^ k"
    using Suc.prems by (intro Suc.IH) simp
  moreover have "(n div 16 ^ k) mod 16 = (m div 16 ^ k) mod 16"
    using Suc.prems by simp
  moreover have "x mod 16 ^ Suc k = 16 ^ k * (x div 16 ^ k mod 16) + x mod 16 ^ k" for x :: nat
    using mod_mult2_eq [of x "16 ^ k" 16] by (simp add: mult.commute)
  ultimately show ?case
    by simp
qed

lemma hex_digits_inj:
  assumes "hex_digits k n = hex_digits k m"
  shows "n mod 16 ^ k = m mod 16 ^ k"
proof (rule mod_16_power_eq, intro allI impI)
  fix i
  assume "i < k"
  then have "i \<in> set (rev [0..<k])"
    by simp
  with assms have "digit_char (n div 16 ^ i) = digit_char (m div 16 ^ i)"
    unfolding hex_digits_def map_eq_conv by blast
  then show "(n div 16 ^ i) mod 16 = (m div 16 ^ i) mod 16"
    by (rule digit_char_inj)
qed

lemma uuid4_hex_inj:
  assumes "uuid4_hex r = uuid4_hex r'"
  shows "uuid4_int r = uuid4_int r'"
proof -
  have lt: "unat w < 16 ^ 32" for w :: "128 word"
    using unsigned_less [of w, where ?'a = nat] by simp
  have "unat (uuid4_int r) mod 16 ^ 32 = unat (uuid4_int r') mod 16 ^ 32"
    using assms unfolding uuid4_hex_def by (rule hex_digits_inj)
  then have "unat (uuid4_int r) = unat (uuid4_int r')"
    using lt [of "uuid4_int r"] lt [of "uuid4_int r'"] by simp
  then show ?thesis
    by (simp only: word_unat_eq_iff)
qed

lemma uuid4_int_form:
  "uuid4_int r =
     (r AND NOT (push_bit 48 0xc000 OR push_bit 64 0xf000)) OR (push_bit 48 0x8000 OR push_bit 76 4)"
proof -
  define a b c d :: "128 word"
    where "a = push_bit 48 0xc000" and "b = push_bit 48 0x8000"
      and "c = push_bit 64 0xf000" and "d = push_bit 76 4"
  have m: "b AND a = b" "d AND c = d" "b AND c = 0"
    by (simp_all add: a_def b_def c_def d_def)
  have sub: "bit b n \<Longrightarrow> bit a n" "bit d n \<Longrightarrow> bit c n" "bit b n \<Longrightarrow> \<not> bit c n" for n
    using m by (metis bit_and_iff bit_0_eq bot_apply bot_bool_def)+
  have "(((r AND NOT a) OR b) AND NOT c) OR d = (r AND NOT (a OR c)) OR (b OR d)"
    by (rule bit_word_eqI) (auto simp add: bit_and_iff bit_or_iff bit_not_iff dest: sub)
  then show ?thesis
    by (simp only: uuid4_int_def a_def b_def c_def d_def)
qed

lemma uuid4_int_keeps:
  "uuid4_int r AND NOT (push_bit 48 0xc000 OR push_bit 64 0xf000)
     = r AND NOT (push_bit 48 0xc000 OR push_bit 64 0xf000)"
proof -
  define a b c d :: "128 word"
    where "a = push_bit 48 0xc000" and "b = push_bit 48 0x8000"
      and "c = push_bit 64 0xf000" and "d = push_bit 76 4"
  have m: "b AND a = b" "d AND c = d"
    by (simp_all add: a_def b_def c_def d_def)
  have sub: "bit b n \<Longrightarrow> bit a n" "bit d n \<Longrightarrow> bit c n" for n
    using m by (metis bit_and_iff)+
  have "((r AND NOT (a OR c)) OR (b OR d)) AND NOT (a OR c) = r AND NOT (a OR c)"
    by (rule bit_word_eqI) (auto simp add: bit_and_iff bit_or_iff bit_not_iff dest: sub)
  then show ?thesis
    by (simp only: uuid4_int_form a_def b_def c_def d_def)
qed

lemma uuid4_int_fixed:
  "uuid4_int r AND (push_bit 48 0xc000 OR push_bit 64 0xf000) = push_bit 48 0x8000 OR push_bit 76 4"
proof -
  define a b c d :: "128 word"
    where "a = push_bit 48 0xc000" and "b = push_bit 48 0x8000"
      and "c = push_bit 64 0xf000" and "d = push_bit 76 4"
  have m: "b AND a = b" "d AND c = d"
    by (simp_all add: a_def b_def c_def d_def)
  have sub: "bit b n \<Longrightarrow> bit a n" "bit d n \<Longrightarrow> bit c n" for n
    using m by (metis bit_and_iff)+
  have "((r AND NOT (a OR c)) OR (b OR d)) AND (a OR c) = b OR d"
    by (rule bit_word_eqI) (auto simp add: bit_and_iff bit_or_iff bit_not_iff dest: sub)
  then show ?thesis
    by (simp only: uuid4_int_form a_def b_def c_def d_def)
qed

lemma uuid4_hex_eq_iff:
  "uuid4_hex r = uuid4_hex r' \<longleftrightarrow>
     r AND NOT (push_bit 48 0xc000 OR push_bit 64 0xf000)
       = r' AND NOT (push_bit 48 0xc000 OR push_bit 64 0xf000)"
proof
  assume "uuid4_hex r = uuid4_hex r'"
  then have "uuid4_int r = uuid4_int r'"
    by (rule uuid4_hex_inj)
  then have "uuid4_int r AND NOT (push_bit 48 0xc000 OR push_bit 64 0xf000)
      = uuid4_int r' AND NOT (push_bit 48 0xc000 OR push_bit 64 0xf000)"
    by (rule arg_cong)
  then show "r AND NOT (push_bit 48 0xc000 OR push_bit 64 0xf000)
       = r' AND NOT (push_bit 48 0xc000 OR push_bit 64 0xf000)"
    by (simp only: uuid4_int_keeps)
next
  assume "r AND NOT (push_bit 48 0xc000 OR push_bit 64 0xf000)
       = r' AND NOT (push_bit 48 0xc000 OR push_bit 64 0xf000)"
  then have "uuid4_int r = uuid4_int r'"
    by (simp only: uuid4_int_form)
  then show "uuid4_hex r = uuid4_hex r'"
    by (simp only: uuid4_hex_def)
qed

lemma length_uuid4_hex: "length (uuid4_hex r) = 32"
  by (simp add: uuid4_hex_def hex_digits_def)

lemma digit_char_hex: "digit_char d \<in> set ''0123456789abcdef''"
  unfolding digit_char_def by (rule nth_mem) simp

lemma set_uuid4_hex: "set (uuid4_hex r) \<subseteq> set ''0123456789abcdef''"
proof
  fix c
  assume "c \<in> set (uuid4_hex r)"
  then obtain d where "c = digit_char d"
    unfolding uuid4_hex_def hex_digits_def set_map by blast
  then show "c \<in> set ''0123456789abcdef''"
    by (simp only: digit_char_hex)
qed

lemma map_of_lowered:
  "map_of (map (\<lambda>(k, v). (lower k, v)) raw) x =
     map_option snd (find (\<lambda>(k, v). lower k = x) raw)"
proof (induction raw)
  case Nil
  show ?case by simp
next
  case (Cons kv raw)
  obtain k v where kv: "kv = (k, v)"
    by (cases kv)
  show ?case
    by (cases "lower k = x") (simp_all add: kv Cons.IH)
qed

lemma headers_get_asgi:
  "headers_get key (asgi_headers raw) =
     map_option snd (find (\<lambda>(k, v). lower k = lower key) raw)"
  by (simp only: headers_get_def asgi_headers_def map_of_lowered)

lemma request_id_of_cases:
  "request_id_of e request =
     (if headers_get ''x-request-id'' (req_headers request) \<in> {None, Some []}
      then uuid4_hex (urandom e) else the (headers_get ''x-request-id'' (req_headers request)))"
  by (auto simp add: request_id_of_def split: option.splits)

lemma request_id_nonempty: "request_id_of e request \<noteq> []"
proof -
  have "uuid4_hex (urandom e) \<noteq> []"
    using length_uuid4_hex [of "urandom e"] by auto
  then show ?thesis
    by (auto simp add: request_id_of_def split: option.splits)
qed

lemma app_returns:
  "\<exists>resp w1. route fb (request\<lparr>state_request_id := Some (request_id_of e request)\<rparr>) w = (Inr resp, w1)
     \<and> app fb e request w =
       (Inr (resp\<lparr>headers := headers_setitem ''x-request-id'' (request_id_of e request) (headers resp)\<rparr>),
        w1\<lparr>REQUEST_COUNT :=
              counter_inc (req_method request, path request, str_int (status_code resp)) (REQUEST_COUNT w1),
            REQUEST_LATENCY :=
              histogram_observe (req_method request, path request, str_int (status_code resp))
                (t_end e - t_start e) (REQUEST_LATENCY w1),
            log_lines := log_lines w1 @
              [dumps (log_record e (request_id_of e request) request resp (t_end e - t_start e))]\<rparr>)
     \<and> REQUEST_COUNT w1 = REQUEST_COUNT w \<and> REQUEST_LATENCY w1 = REQUEST_LATENCY w
     \<and> log_lines w1 = log_lines w
     \<and> (store w1 = store w \<or> (\<exists>nm. store w1 = snd (InMemoryStore_add_item nm (store w))))"
proof -
  obtain resp w1 where r: "route fb (request\<lparr>state_request_id := Some (request_id_of e request)\<rparr>) w = (Inr resp, w1)"
      "REQUEST_COUNT w1 = REQUEST_COUNT w" "REQUEST_LATENCY w1 = REQUEST_LATENCY w"
      "log_lines w1 = log_lines w"
      "store w1 = store w \<or> (\<exists>nm. store w1 = snd (InMemoryStore_add_item nm (store w)))"
    using route_returns [where fb = fb and r = request and rid = "request_id_of e request" and w = w]
    by blast
  show ?thesis
    unfolding app_def
    using r dispatch_Inr [where call_next = "route fb" and e = e and request = request, OF r(1)]
    by blast
qed

text \<open>
  C2, as the code has it. When the handler raises, \<open>dispatch\<close> stops at the
  \<^verbatim>\<open>await\<close>: the exception leaves it unchanged, and the state is exactly the one the
  handler left, so no counter is incremented, no latency is observed and no line is
  logged (in particular nothing is recorded under status 500). The middleware never
  suppresses the error. When the handler returns a response, the metrics and the log
  call do not raise: \<open>dispatch\<close> returns a response with the handler's status.
\<close>

theorem dispatch_raise_propagates:
  "(call_next (request\<lparr>state_request_id := Some (request_id_of e request)\<rparr>) w = (Inl err, w1)
      \<longrightarrow> dispatch call_next e request w = (Inl err, w1))
   \<and> (call_next (request\<lparr>state_request_id := Some (request_id_of e request)\<rparr>) w = (Inr resp, w1)
      \<longrightarrow> (\<exists>resp'. fst (dispatch call_next e request w) = Inr resp'
             \<and> status_code resp' = status_code resp))"
  by (auto simp add: dispatch_Inl dispatch_Inr)

theorem dispatch_raise_propagates_witness:
  "raising ((GET ''/health'' [])\<lparr>state_request_id := Some (request_id_of example_env (GET ''/health'' []))\<rparr>)
      init_world = (Inl (Exception ''boom''), init_world)
   \<and> dispatch raising example_env (GET ''/health'' []) init_world = (Inl (Exception ''boom''), init_world)"
  using dispatch_raise_propagates
    [where call_next = raising and request = "GET ''/health'' []" and e = example_env
       and w = init_world and err = "Exception ''boom''" and ?w1.0 = init_world]
  by (simp add: raising_def)

text \<open>
  C2 as stated fails: a handler that raises on \<^verbatim>\<open>GET /health\<close>, in a fresh process.
  The error comes out of \<open>dispatch\<close>, but the counter of
  (\<^verbatim>\<open>GET\<close>, \<^verbatim>\<open>/health\<close>, \<^verbatim>\<open>500\<close>) has not moved, both metrics are still empty, and
  nothing has been logged.
\<close>

theorem dispatch_raise_counterexample:
  "raising ((GET ''/health'' [])\<lparr>state_request_id := Some (request_id_of example_env (GET ''/health'' []))\<rparr>)
      init_world = (Inl (Exception ''boom''), init_world)
   \<and> fst (dispatch raising example_env (GET ''/health'' []) init_world) = Inl (Exception ''boom'')
   \<and> counter_value (REQUEST_COUNT (snd (dispatch raising example_env (GET ''/health'' []) init_world)))
        (''GET'', ''/health'', ''500'')
      \<noteq> counter_value (REQUEST_COUNT init_world) (''GET'', ''/health'', ''500'') + 1
   \<and> REQUEST_COUNT (snd (dispatch raising example_env (GET ''/health'' []) init_world)) = Map.empty
   \<and> REQUEST_LATENCY (snd (dispatch raising example_env (GET ''/health'' []) init_world)) = Map.empty
   \<and> log_lines (snd (dispatch raising example_env (GET ''/health'' []) init_world)) = []"
  by (simp add: dispatch_def raising_def init_world_def counter_value_def)

text \<open>
  C8. Whenever the handler returns a response, the middleware returns that response
  with the same status code and the same content, and with the same headers apart
  from \<^verbatim>\<open>x-request-id\<close>: the pairs of every other name are the handler's, in the
  handler's order. The \<^verbatim>\<open>x-request-id\<close> header carries the resolved id; when the
  handler set no such header, it is appended behind the handler's headers.
\<close>

theorem response_unchanged_but_header:
  assumes "call_next (request\<lparr>state_request_id := Some (request_id_of e request)\<rparr>) w = (Inr resp, w1)"
  shows "\<exists>resp'. fst (dispatch call_next e request w) = Inr resp'
           \<and> status_code resp' = status_code resp
           \<and> content resp' = content resp
           \<and> filter (\<lambda>(k, v). k \<noteq> ''x-request-id'') (headers resp')
               = filter (\<lambda>(k, v). k \<noteq> ''x-request-id'') (headers resp)
           \<and> headers_get ''x-request-id'' (headers resp') = Some (request_id_of e request)
           \<and> (''x-request-id'' \<notin> set (map fst (headers resp))
                \<longrightarrow> headers resp' = headers resp @ [(''x-request-id'', request_id_of e request)])"
proof -
  let ?resp' = "resp\<lparr>headers := headers_setitem ''x-request-id'' (request_id_of e request) (headers resp)\<rparr>"
  have "fst (dispatch call_next e request w) = Inr ?resp'"
    using assms by (simp add: dispatch_Inr)
  moreover have "filter (\<lambda>(k, v). k \<noteq> ''x-request-id'') (headers ?resp')
               = filter (\<lambda>(k, v). k \<noteq> ''x-request-id'') (headers resp)"
    using headers_setitem_others [of "''x-request-id''"] by (simp add: lower_x_request_id)
  moreover have "headers_get ''x-request-id'' (headers ?resp') = Some (request_id_of e request)"
    by (simp add: headers_get_setitem)
  moreover have "''x-request-id'' \<notin> set (map fst (headers resp))
                \<longrightarrow> headers ?resp' = headers resp @ [(''x-request-id'', request_id_of e request)]"
    by (simp add: headers_setitem_def lower_x_request_id)
  ultimately show ?thesis
    by (intro exI [of _ ?resp']) simp
qed

theorem response_unchanged_but_header_witness:
  "health ((GET ''/health'' [(''X-Request-ID'', ''abc'')])
             \<lparr>state_request_id := Some (request_id_of example_env (GET ''/health'' [(''X-Request-ID'', ''abc'')]))\<rparr>)
      init_world
     = (Inr (JSONResponse (JObj [(''status'', JStr ''ok''), (''request_id'', JStr ''abc'')]) 200), init_world)
   \<and> fst (dispatch health example_env (GET ''/health'' [(''X-Request-ID'', ''abc'')]) init_world)
     = Inr \<lparr>status_code = 200, headers = [(''x-request-id'', ''abc'')],
            content = JsonContent (JObj [(''status'', JStr ''ok''), (''request_id'', JStr ''abc'')])\<rparr>"
proof -
  have rid: "request_id_of example_env (GET ''/health'' [(''X-Request-ID'', ''abc'')]) = ''abc''"
    by (simp add: request_id_of_def GET_def asgi_headers_def headers_get_def lower_def lower_char_def)
  have h: "health ((GET ''/health'' [(''X-Request-ID'', ''abc'')])
             \<lparr>state_request_id := Some (request_id_of example_env (GET ''/health'' [(''X-Request-ID'', ''abc'')]))\<rparr>)
      init_world
     = (Inr (JSONResponse (JObj [(''status'', JStr ''ok''), (''request_id'', JStr ''abc'')]) 200), init_world)"
    by (simp add: rid handlers_with_id)
  from response_unchanged_but_header
    [where call_next = health and e = example_env and w = init_world
       and request = "GET ''/health'' [(''X-Request-ID'', ''abc'')]", OF h]
  obtain resp' where
    r: "fst (dispatch health example_env (GET ''/health'' [(''X-Request-ID'', ''abc'')]) init_world) = Inr resp'"
      "status_code resp' = 200" "content resp' = JsonContent (JObj [(''status'', JStr ''ok''), (''request_id'', JStr ''abc'')])"
      "headers resp' = [(''x-request-id'', ''abc'')]"
    by (auto simp add: JSONResponse_def rid)
  then have "resp' = \<lparr>status_code = 200, headers = [(''x-request-id'', ''abc'')],
            content = JsonContent (JObj [(''status'', JStr ''ok''), (''request_id'', JStr ''abc'')])\<rparr>"
    by simp
  with h r show ?thesis by simp
qed

text \<open>
  C3. The resolved request id is never empty. When the headers hold a non-empty
  \<^verbatim>\<open>x-request-id\<close>, it is returned verbatim, whatever the case of the letters the client
  wrote the header name in; otherwise (no such header, or an empty value) the id is the
  32 hexadecimal digits of a version-4 UUID made from the 16 random bytes drawn for
  this request: the UUID keeps the 122 bits of the draw outside the version and variant
  fields, these two fields are set to version 4 and variant 10, and two draws give the
  same id exactly when they agree on those 122 bits. (How likely two draws agree is a
  matter of the random source and is not stated.) Every
  response the middleware returns carries the resolved id in its \<^verbatim>\<open>x-request-id\<close>
  header, and the service answers every request with such a response.
\<close>

theorem request_id_resolved:
  "request_id_of e request \<noteq> []
   \<and> (\<forall>v. headers_get ''x-request-id'' (req_headers request) = Some v \<and> v \<noteq> []
          \<longrightarrow> request_id_of e request = v)
   \<and> (\<forall>k v. find (\<lambda>(k, v). lower k = ''x-request-id'') raw = Some (k, v) \<and> v \<noteq> []
          \<longrightarrow> request_id_of e (request\<lparr>req_headers := asgi_headers raw\<rparr>) = v)
   \<and> (headers_get ''x-request-id'' (req_headers request) \<in> {None, Some []}
          \<longrightarrow> request_id_of e request = uuid4_hex (urandom e))
   \<and> length (uuid4_hex (urandom e)) = 32
   \<and> set (uuid4_hex (urandom e)) \<subseteq> set ''0123456789abcdef''
   \<and> (uuid4_hex (urandom e) = uuid4_hex (urandom e') \<longrightarrow> uuid4_int (urandom e) = uuid4_int (urandom e'))
   \<and> uuid4_int (urandom e) AND NOT (push_bit 48 0xc000 OR push_bit 64 0xf000)
       = urandom e AND NOT (push_bit 48 0xc000 OR push_bit 64 0xf000)
   \<and> uuid4_int (urandom e) AND (push_bit 48 0xc000 OR push_bit 64 0xf000)
       = push_bit 48 0x8000 OR push_bit 76 4
   \<and> (uuid4_hex (urandom e) = uuid4_hex (urandom e') \<longleftrightarrow>
        urandom e AND NOT (push_bit 48 0xc000 OR push_bit 64 0xf000)
          = urandom e' AND NOT (push_bit 48 0xc000 OR push_bit 64 0xf000))
   \<and> (\<forall>resp w1. call_next (request\<lparr>state_request_id := Some (request_id_of e request)\<rparr>) w = (Inr resp, w1)
          \<longrightarrow> (\<exists>resp'. fst (dispatch call_next e request w) = Inr resp'
                 \<and> headers_get ''x-request-id'' (headers resp') = Some (request_id_of e request)))
   \<and> (\<exists>resp'. fst (app fb e request w) = Inr resp'
          \<and> headers_get ''x-request-id'' (headers resp') = Some (request_id_of e request))"
proof -
  have verbatim: "request_id_of e r = v"
    if "headers_get ''x-request-id'' (req_headers r) = Some v" "v \<noteq> []" for r v
    using that by (simp add: request_id_of_def)
  have insensitive: "request_id_of e (request\<lparr>req_headers := asgi_headers raw\<rparr>) = v"
    if "find (\<lambda>(k, v). lower k = ''x-request-id'') raw = Some (k, v)" "v \<noteq> []" for k v
  proof (rule verbatim)
    show "headers_get ''x-request-id'' (req_headers (request\<lparr>req_headers := asgi_headers raw\<rparr>)) = Some v"
      using that(1) by (simp add: headers_get_asgi lower_x_request_id)
  qed (rule that(2))
  have fresh: "request_id_of e request = uuid4_hex (urandom e)"
    if "headers_get ''x-request-id'' (req_headers request) \<in> {None, Some []}"
    using that by (simp add: request_id_of_cases)
  have mw: "\<exists>resp'. fst (dispatch call_next e request w) = Inr resp'
                 \<and> headers_get ''x-request-id'' (headers resp') = Some (request_id_of e request)"
    if "call_next (request\<lparr>state_request_id := Some (request_id_of e request)\<rparr>) w = (Inr resp, w1)"
    for resp w1
    using that by (simp add: dispatch_Inr headers_get_setitem)
  have service: "\<exists>resp'. fst (app fb e request w) = Inr resp'
          \<and> headers_get ''x-request-id'' (headers resp') = Some (request_id_of e request)"
    using app_returns [where fb = fb and request = request and e = e and w = w]
    by (auto simp add: headers_get_setitem)
  have draw: "uuid4_int (urandom e) AND NOT (push_bit 48 0xc000 OR push_bit 64 0xf000)
       = urandom e AND NOT (push_bit 48 0xc000 OR push_bit 64 0xf000)
   \<and> uuid4_int (urandom e) AND (push_bit 48 0xc000 OR push_bit 64 0xf000)
       = push_bit 48 0x8000 OR push_bit 76 4
   \<and> (uuid4_hex (urandom e) = uuid4_hex (urandom e') \<longleftrightarrow>
        urandom e AND NOT (push_bit 48 0xc000 OR push_bit 64 0xf000)
          = urandom e' AND NOT (push_bit 48 0xc000 OR push_bit 64 0xf000))"
    using uuid4_int_keeps [of "urandom e"] uuid4_int_fixed [of "urandom e"]
      uuid4_hex_eq_iff [of "urandom e" "urandom e'"]
    by blast
  show ?thesis
    using request_id_nonempty verbatim insensitive fresh length_uuid4_hex set_uuid4_hex
      uuid4_hex_inj draw mw service
    by blast
qed

theorem request_id_resolved_witness:
  "find (\<lambda>(k, v). lower k = ''x-request-id'') [(''Accept'', ''*/*''), (''X-Request-ID'', ''abc'')]
     = Some (''X-Request-ID'', ''abc'')
   \<and> request_id_of example_env (GET ''/health'' [(''Accept'', ''*/*''), (''X-Request-ID'', ''abc'')]) = ''abc''
   \<and> headers_get ''x-request-id'' (req_headers (GET ''/health'' [])) = None
   \<and> request_id_of example_env (GET ''/health'' []) = ''0123456789ab4def8123456789abcdef''
   \<and> request_id_of (example_env\<lparr>urandom := 0\<rparr>) (GET ''/health'' [])
       = ''00000000000040008000000000000000''
   \<and> urandom example_env AND NOT (push_bit 48 0xc000 OR push_bit 64 0xf000)
       \<noteq> urandom (example_env\<lparr>urandom := 0\<rparr>) AND NOT (push_bit 48 0xc000 OR push_bit 64 0xf000)
   \<and> uuid4_hex (urandom example_env) \<noteq> uuid4_hex (urandom (example_env\<lparr>urandom := 0\<rparr>))"
proof -
  have f: "find (\<lambda>(k, v). lower k = ''x-request-id'') [(''Accept'', ''*/*''), (''X-Request-ID'', ''abc'')]
     = Some (''X-Request-ID'', ''abc'')"
    by (simp add: lower_def lower_char_def)
  have g: "headers_get ''x-request-id'' (req_headers (GET ''/health'' [])) = None"
    by (simp add: GET_def asgi_headers_def headers_get_def)
  have u: "uuid4_hex (urandom example_env) = ''0123456789ab4def8123456789abcdef''"
    by (simp add: example_env_def uuid4_hex_def uuid4_int_def hex_digits_def digit_char_def upt_rec)
  have eq: "(GET ''/health'' [])\<lparr>req_headers := asgi_headers [(''Accept'', ''*/*''), (''X-Request-ID'', ''abc'')]\<rparr>
      = GET ''/health'' [(''Accept'', ''*/*''), (''X-Request-ID'', ''abc'')]"
    by (simp add: GET_def)
  have u0: "uuid4_hex (urandom (example_env\<lparr>urandom := 0\<rparr>)) = ''00000000000040008000000000000000''"
    by (simp add: uuid4_hex_def uuid4_int_def hex_digits_def digit_char_def upt_rec)
  have g0: "request_id_of (example_env\<lparr>urandom := 0\<rparr>) (GET ''/health'' [])
       = uuid4_hex (urandom (example_env\<lparr>urandom := 0\<rparr>))"
    using g by (simp add: request_id_of_def)
  have d: "urandom example_env AND NOT (push_bit 48 0xc000 OR push_bit 64 0xf000)
       \<noteq> urandom (example_env\<lparr>urandom := 0\<rparr>) AND NOT (push_bit 48 0xc000 OR push_bit 64 0xf000)"
    by (simp add: example_env_def)
  note inst = request_id_resolved
      [where e = example_env and request = "GET ''/health'' []"
         and raw = "[(''Accept'', ''*/*''), (''X-Request-ID'', ''abc'')]"
         and e' = "example_env\<lparr>urandom := 0\<rparr>"]
  from inst d have ne: "uuid4_hex (urandom example_env) \<noteq> uuid4_hex (urandom (example_env\<lparr>urandom := 0\<rparr>))"
    by blast
  from inst f g u eq have "request_id_of example_env (GET ''/health'' [(''Accept'', ''*/*''), (''X-Request-ID'', ''abc'')]) = ''abc''
      \<and> request_id_of example_env (GET ''/health'' []) = ''0123456789ab4def8123456789abcdef''"
    by auto
  with f g g0 u0 d ne show ?thesis
    by simp
qed

section \<open>Properties of the service\<close>

lemma app_unfold:
  "route fb (request\<lparr>state_request_id := Some (request_id_of e request)\<rparr>) w = (Inr resp, w1)
   \<Longrightarrow> fst (app fb e request w) =
         Inr (resp\<lparr>headers := headers_setitem ''x-request-id'' (request_id_of e request) (headers resp)\<rparr>)
     \<and> store (snd (app fb e request w)) = store w1"
  unfolding app_def
  using dispatch_Inr [where call_next = "route fb" and e = e and request = request and w = w
      and resp = resp and ?w1.0 = w1]
  by simp

lemma route_post_valid:
  assumes "req_method request = ''POST''" "path request = ''/items''"
    and "ItemIn_validate (body request) = Inr p"
  shows "route fb (request\<lparr>state_request_id := Some rid\<rparr>) w =
     (Inr (JSONResponse
             (JObj [(''item'', model_dump \<lparr>name = name p, item_id = next_id (store w)\<rparr>),
                    (''request_id'', JStr rid)]) 201),
      w\<lparr>store := snd (InMemoryStore_add_item (name p) (store w))\<rparr>)"
  using assms by (simp add: route_def post_items_def handlers_with_id)

lemma route_post_invalid:
  assumes "req_method request = ''POST''" "path request = ''/items''"
    and "ItemIn_validate (body request) = Inl errs"
  shows "route fb (request\<lparr>state_request_id := Some rid\<rparr>) w = (Inr (validation_response errs), w)"
  using assms by (simp add: route_def post_items_def)

lemma route_get_items:
  assumes "req_method request = ''GET''" "path request = ''/items''"
  shows "route fb (request\<lparr>state_request_id := Some rid\<rparr>) w =
     (Inr (JSONResponse
             (JObj [(''items'', JArr (map model_dump (items (store w)))),
                    (''count'', JInt (int (length (items (store w))))),
                    (''request_id'', JStr rid)]) 200), w)"
  using assms by (simp add: route_def handlers_with_id)

lemma route_store:
  "store (snd (route fb (request\<lparr>state_request_id := Some rid\<rparr>) w)) =
     (case posted_name request of
        None \<Rightarrow> store w
      | Some nm \<Rightarrow> snd (InMemoryStore_add_item nm (store w)))"
  by (auto simp add: route_def posted_name_def post_items_def handlers_with_id metrics_def
      split: sum.splits)

lemma app_store:
  "store (snd (app fb e request w)) =
     (case posted_name request of
        None \<Rightarrow> store w
      | Some nm \<Rightarrow> snd (InMemoryStore_add_item nm (store w)))"
proof -
  obtain resp w1 where r:
    "route fb (request\<lparr>state_request_id := Some (request_id_of e request)\<rparr>) w = (Inr resp, w1)"
    using route_returns [where fb = fb and r = request and rid = "request_id_of e request" and w = w]
    by blast
  have "store (snd (app fb e request w)) = store w1"
    using app_unfold [OF r] by simp
  also have "\<dots> = store (snd (route fb (request\<lparr>state_request_id := Some (request_id_of e request)\<rparr>) w))"
    by (simp add: r)
  finally show ?thesis
    by (simp only: route_store)
qed

lemma serve_store: "store (serve fb rs w) = add_all (posted_names rs) (store w)"
proof (induction rs arbitrary: w)
  case Nil
  show ?case by (simp add: posted_names_def List.map_filter_simps)
next
  case (Cons er rs)
  obtain e r where er: "er = (e, r)"
    by (cases er)
  show ?case
    by (cases "posted_name r")
       (simp_all add: er Cons.IH app_store posted_names_def List.map_filter_simps)
qed

lemma serve_store_inv: "store_inv (store (serve fb rs init_world))"
  by (simp add: serve_store init_world_def store_inv_add_all store_inv_init)

lemma items_add_all:
  "items (add_all nms s) =
     items s @ map (\<lambda>(k, nm). \<lparr>name = nm, item_id = next_id s + int k\<rparr>) (enumerate 0 nms)"
proof (induction nms rule: rev_induct)
  case Nil
  show ?case by simp
next
  case (snoc x xs)
  show ?case
    by (simp add: add_all_snoc add_item_simps snoc.IH next_id_add_all enumerate_append_eq)
qed

lemma set_items_add_all: "set (items s) \<subseteq> set (items (add_all nms s))"
  by (simp add: items_add_all)

lemma validate_name:
  "map_of kvs ''name'' = Some (JStr nm) \<Longrightarrow> ItemIn_validate (Some (JObj kvs)) = Inr \<lparr>name = nm\<rparr>"
  by (simp add: ItemIn_validate_def)

lemma validate_missing:
  "''name'' \<notin> set (map fst kvs) \<Longrightarrow>
   ItemIn_validate (Some (JObj kvs)) =
     Inl [\<lparr>v_type = ''missing'', v_loc = [''body'', ''name''], v_msg = ''Field required'',
           v_input = JObj kvs\<rparr>]"
  by (simp add: ItemIn_validate_def map_of_eq_None_iff [THEN iffD2])

lemma validate_errors_nonempty: "ItemIn_validate b = Inl errs \<Longrightarrow> errs \<noteq> []"
  by (auto simp add: ItemIn_validate_def split: option.splits json.splits)

lemma posted_name_valid:
  "req_method request = ''POST'' \<Longrightarrow> path request = ''/items'' \<Longrightarrow>
   body request = Some (JObj kvs) \<Longrightarrow> map_of kvs ''name'' = Some (JStr nm) \<Longrightarrow>
   posted_name request = Some nm"
  by (simp add: posted_name_def validate_name)

lemma posted_name_get: "req_method request = ''GET'' \<Longrightarrow> posted_name request = None"
  by (simp add: posted_name_def)


text \<open>
  C1, as the code has it. A \<^verbatim>\<open>POST /items\<close> whose body is a JSON object without
  \<^verbatim>\<open>name\<close> is answered with status 422 and the field-level detail (type
  \<^verbatim>\<open>missing\<close>, location \<^verbatim>\<open>body.name\<close>), and the store is unchanged; so is every
  body that fails the validation of \<^verbatim>\<open>ItemIn\<close>, with one detail entry per error. A
  \<^verbatim>\<open>name\<close> that is the empty string passes the validation, since \<^verbatim>\<open>name: str\<close>
  declares no minimal length: the answer is 201 and the item is stored.
\<close>

theorem post_items_invalid_rejected:
  assumes "req_method request = ''POST''" and "path request = ''/items''"
  shows
    "(\<forall>kvs. body request = Some (JObj kvs) \<and> ''name'' \<notin> set (map fst kvs) \<longrightarrow>
        fst (app fb e request w) =
          Inr \<lparr>status_code = 422, headers = [(''x-request-id'', request_id_of e request)],
               content = JsonContent (JObj [(''detail'', JArr [JObj
                 [(''type'', JStr ''missing''), (''loc'', JArr [JStr ''body'', JStr ''name'']),
                  (''msg'', JStr ''Field required''), (''input'', JObj kvs)]])])\<rparr>
        \<and> store (snd (app fb e request w)) = store w)
     \<and> (\<forall>errs. ItemIn_validate (body request) = Inl errs \<longrightarrow>
        errs \<noteq> []
        \<and> fst (app fb e request w) =
          Inr \<lparr>status_code = 422, headers = [(''x-request-id'', request_id_of e request)],
               content = JsonContent (JObj [(''detail'', JArr (map error_json errs))])\<rparr>
        \<and> store (snd (app fb e request w)) = store w)
     \<and> (\<forall>kvs. body request = Some (JObj kvs) \<and> map_of kvs ''name'' = Some (JStr []) \<longrightarrow>
        (\<exists>resp. fst (app fb e request w) = Inr resp \<and> status_code resp = 201)
        \<and> items (store (snd (app fb e request w))) =
            items (store w) @ [\<lparr>name = [], item_id = next_id (store w)\<rparr>]
        \<and> next_id (store (snd (app fb e request w))) = next_id (store w) + 1)"
proof -
  have invalid: "errs \<noteq> []
        \<and> fst (app fb e request w) =
          Inr \<lparr>status_code = 422, headers = [(''x-request-id'', request_id_of e request)],
               content = JsonContent (JObj [(''detail'', JArr (map error_json errs))])\<rparr>
        \<and> store (snd (app fb e request w)) = store w"
    if v: "ItemIn_validate (body request) = Inl errs" for errs
  proof -
    have "route fb (request\<lparr>state_request_id := Some (request_id_of e request)\<rparr>) w
            = (Inr (validation_response errs), w)"
      using assms v by (rule route_post_invalid)
    from app_unfold [OF this] show ?thesis
      using validate_errors_nonempty [OF v]
      by (simp add: validation_response_def JSONResponse_def headers_setitem_def lower_x_request_id)
  qed
  have missing: "fst (app fb e request w) =
          Inr \<lparr>status_code = 422, headers = [(''x-request-id'', request_id_of e request)],
               content = JsonContent (JObj [(''detail'', JArr [JObj
                 [(''type'', JStr ''missing''), (''loc'', JArr [JStr ''body'', JStr ''name'']),
                  (''msg'', JStr ''Field required''), (''input'', JObj kvs)]])])\<rparr>
        \<and> store (snd (app fb e request w)) = store w"
    if "body request = Some (JObj kvs)" "''name'' \<notin> set (map fst kvs)" for kvs
    using invalid [of "[\<lparr>v_type = ''missing'', v_loc = [''body'', ''name''],
           v_msg = ''Field required'', v_input = JObj kvs\<rparr>]"] that validate_missing [of kvs]
    by (simp add: error_json_def)
  have empty: "(\<exists>resp. fst (app fb e request w) = Inr resp \<and> status_code resp = 201)
        \<and> items (store (snd (app fb e request w))) =
            items (store w) @ [\<lparr>name = [], item_id = next_id (store w)\<rparr>]
        \<and> next_id (store (snd (app fb e request w))) = next_id (store w) + 1"
    if b: "body request = Some (JObj kvs)" "map_of kvs ''name'' = Some (JStr [])" for kvs
  proof -
    have "ItemIn_validate (body request) = Inr \<lparr>name = []\<rparr>"
      using b by (simp add: validate_name)
    with assms have "route fb (request\<lparr>state_request_id := Some (request_id_of e request)\<rparr>) w =
     (Inr (JSONResponse
             (JObj [(''item'', model_dump \<lparr>name = name \<lparr>name = []\<rparr>, item_id = next_id (store w)\<rparr>),
                    (''request_id'', JStr (request_id_of e request))]) 201),
      w\<lparr>store := snd (InMemoryStore_add_item (name \<lparr>name = []\<rparr>) (store w))\<rparr>)"
      by (rule route_post_valid)
    from app_unfold [OF this] show ?thesis
      by (simp add: JSONResponse_def add_item_simps)
  qed
  show ?thesis
    using invalid missing empty by blast
qed

theorem post_items_invalid_rejected_witness:
  "req_method (POST_items (JObj [])) = ''POST'' \<and> path (POST_items (JObj [])) = ''/items''
   \<and> body (POST_items (JObj [])) = Some (JObj [])
   \<and> fst (app not_found example_env (POST_items (JObj [])) init_world) =
      Inr \<lparr>status_code = 422, headers = [(''x-request-id'', ''0123456789ab4def8123456789abcdef'')],
           content = JsonContent (JObj [(''detail'', JArr [JObj
             [(''type'', JStr ''missing''), (''loc'', JArr [JStr ''body'', JStr ''name'']),
              (''msg'', JStr ''Field required''), (''input'', JObj [])]])])\<rparr>
   \<and> store (snd (app not_found example_env (POST_items (JObj [])) init_world)) = InMemoryStore_init"
proof -
  have u: "uuid4_hex (urandom example_env) = ''0123456789ab4def8123456789abcdef''"
    by (simp add: example_env_def uuid4_hex_def uuid4_int_def hex_digits_def digit_char_def upt_rec)
  have rid: "request_id_of example_env (POST_items (JObj [])) = ''0123456789ab4def8123456789abcdef''"
    by (simp add: request_id_of_def POST_items_def headers_get_def u)
  have p: "req_method (POST_items (JObj [])) = ''POST''" "path (POST_items (JObj [])) = ''/items''"
    "body (POST_items (JObj [])) = Some (JObj [])"
    by (simp_all add: POST_items_def)
  show ?thesis
    using post_items_invalid_rejected
      [where request = "POST_items (JObj [])" and fb = not_found and e = example_env
         and w = init_world, OF p(1) p(2)] p rid
    by (simp add: init_world_def)
qed

text \<open>
  C1 as stated fails: \<^verbatim>\<open>POST /items\<close> with the body \<^verbatim>\<open>{"name": ""}\<close>, in a fresh
  process. The answer is 201, not 422, and the store holds the new item with the empty
  name.
\<close>

theorem post_items_empty_name_counterexample:
  "req_method (POST_items (JObj [(''name'', JStr [])])) = ''POST''
   \<and> path (POST_items (JObj [(''name'', JStr [])])) = ''/items''
   \<and> body (POST_items (JObj [(''name'', JStr [])])) = Some (JObj [(''name'', JStr [])])
   \<and> fst (app not_found example_env (POST_items (JObj [(''name'', JStr [])])) init_world) =
      Inr \<lparr>status_code = 201, headers = [(''x-request-id'', ''0123456789ab4def8123456789abcdef'')],
           content = JsonContent (JObj
             [(''item'', JObj [(''name'', JStr []), (''id'', JInt 1)]),
              (''request_id'', JStr ''0123456789ab4def8123456789abcdef'')])\<rparr>
   \<and> store (snd (app not_found example_env (POST_items (JObj [(''name'', JStr [])])) init_world)) =
      \<lparr>items = [\<lparr>name = [], item_id = 1\<rparr>], next_id = 2\<rparr>
   \<and> store init_world = \<lparr>items = [], next_id = 1\<rparr>"
proof -
  let ?r = "POST_items (JObj [(''name'', JStr [])])"
  have u: "uuid4_hex (urandom example_env) = ''0123456789ab4def8123456789abcdef''"
    by (simp add: example_env_def uuid4_hex_def uuid4_int_def hex_digits_def digit_char_def upt_rec)
  have rid: "request_id_of example_env ?r = ''0123456789ab4def8123456789abcdef''"
    by (simp add: request_id_of_def POST_items_def headers_get_def u)
  have p: "req_method ?r = ''POST''" "path ?r = ''/items''"
    "body ?r = Some (JObj [(''name'', JStr [])])"
    by (simp_all add: POST_items_def)
  have v: "ItemIn_validate (body ?r) = Inr \<lparr>name = []\<rparr>"
    by (simp add: p validate_name)
  have "route not_found (?r\<lparr>state_request_id := Some (request_id_of example_env ?r)\<rparr>) init_world =
     (Inr (JSONResponse
             (JObj [(''item'', model_dump \<lparr>name = name \<lparr>name = []\<rparr>, item_id = next_id (store init_world)\<rparr>),
                    (''request_id'', JStr (request_id_of example_env ?r))]) 201),
      init_world\<lparr>store := snd (InMemoryStore_add_item (name \<lparr>name = []\<rparr>) (store init_world))\<rparr>)"
    using p(1) p(2) v by (rule route_post_valid)
  from app_unfold [OF this] show ?thesis
    using p
    by (simp add: rid JSONResponse_def model_dump_def init_world_def InMemoryStore_init_def
        InMemoryStore_add_item_def Let_def headers_setitem_def lower_x_request_id)
qed

text \<open>
  C5. In any state the service reaches from its start, a \<^verbatim>\<open>POST /items\<close> whose body
  carries the non-empty name \<open>N\<close> is answered with status 201 and the item of name \<open>N\<close>;
  the id of that item is above the id of every item stored before; and a later
  \<^verbatim>\<open>GET /items\<close>, whatever requests were served in between, answers 200 with a list
  that holds the item with that id and name.
\<close>

theorem post_items_creates:
  assumes "req_method request = ''POST''" and "path request = ''/items''"
    and "body request = Some (JObj kvs)" and "map_of kvs ''name'' = Some (JStr N)" and "N \<noteq> []"
    and "req_method request' = ''GET''" and "path request' = ''/items''"
  shows
    "fst (app fb e request (serve fb rs init_world)) =
       Inr \<lparr>status_code = 201, headers = [(''x-request-id'', request_id_of e request)],
            content = JsonContent (JObj
              [(''item'', JObj [(''name'', JStr N),
                                (''id'', JInt (next_id (store (serve fb rs init_world))))]),
               (''request_id'', JStr (request_id_of e request))])\<rparr>
     \<and> (\<forall>it \<in> set (items (store (serve fb rs init_world))).
           item_id it < next_id (store (serve fb rs init_world)))
     \<and> (\<exists>its. fst (app fb e' request' (serve fb rs' (snd (app fb e request (serve fb rs init_world))))) =
           Inr \<lparr>status_code = 200, headers = [(''x-request-id'', request_id_of e' request')],
                content = JsonContent (JObj
                  [(''items'', JArr its), (''count'', JInt (int (length its))),
                   (''request_id'', JStr (request_id_of e' request'))])\<rparr>
         \<and> JObj [(''name'', JStr N), (''id'', JInt (next_id (store (serve fb rs init_world))))]
             \<in> set its)"
proof -
  let ?w = "serve fb rs init_world"
  let ?w' = "snd (app fb e request ?w)"
  let ?w'' = "serve fb rs' ?w'"
  let ?item = "\<lparr>name = N, item_id = next_id (store ?w)\<rparr>"
  have v: "ItemIn_validate (body request) = Inr \<lparr>name = N\<rparr>"
    using assms(3,4) by (simp add: validate_name)
  have "route fb (request\<lparr>state_request_id := Some (request_id_of e request)\<rparr>) ?w =
     (Inr (JSONResponse
             (JObj [(''item'', model_dump \<lparr>name = name \<lparr>name = N\<rparr>, item_id = next_id (store ?w)\<rparr>),
                    (''request_id'', JStr (request_id_of e request))]) 201),
      ?w\<lparr>store := snd (InMemoryStore_add_item (name \<lparr>name = N\<rparr>) (store ?w))\<rparr>)"
    using assms(1,2) v by (rule route_post_valid)
  from app_unfold [OF this]
  have created: "fst (app fb e request ?w) =
       Inr \<lparr>status_code = 201, headers = [(''x-request-id'', request_id_of e request)],
            content = JsonContent (JObj
              [(''item'', JObj [(''name'', JStr N), (''id'', JInt (next_id (store ?w)))]),
               (''request_id'', JStr (request_id_of e request))])\<rparr>"
    and st: "items (store ?w') = items (store ?w) @ [?item]"
    by (simp_all add: JSONResponse_def model_dump_def add_item_simps headers_setitem_def
        lower_x_request_id)
  have above: "\<forall>it \<in> set (items (store ?w)). item_id it < next_id (store ?w)"
    using serve_store_inv [of fb rs] by (simp add: store_inv_ids_below)
  have "?item \<in> set (items (store ?w'))"
    by (simp add: st)
  then have mem: "?item \<in> set (items (store ?w''))"
    using set_items_add_all [of "store ?w'" "posted_names rs'"] by (auto simp add: serve_store)
  have "route fb (request'\<lparr>state_request_id := Some (request_id_of e' request')\<rparr>) ?w'' =
     (Inr (JSONResponse
             (JObj [(''items'', JArr (map model_dump (items (store ?w'')))),
                    (''count'', JInt (int (length (items (store ?w''))))),
                    (''request_id'', JStr (request_id_of e' request'))]) 200), ?w'')"
    using assms(6,7) by (rule route_get_items)
  from app_unfold [OF this]
  have listed: "fst (app fb e' request' ?w'') =
           Inr \<lparr>status_code = 200, headers = [(''x-request-id'', request_id_of e' request')],
                content = JsonContent (JObj
                  [(''items'', JArr (map model_dump (items (store ?w'')))),
                   (''count'', JInt (int (length (map model_dump (items (store ?w'')))))),
                   (''request_id'', JStr (request_id_of e' request'))])\<rparr>"
    by (simp add: JSONResponse_def headers_setitem_def lower_x_request_id)
  have "model_dump ?item \<in> set (map model_dump (items (store ?w'')))"
    using mem by (simp only: set_map) (rule imageI)
  then have "JObj [(''name'', JStr N), (''id'', JInt (next_id (store ?w)))]
      \<in> set (map model_dump (items (store ?w'')))"
    by (simp add: model_dump_def)
  with listed have "\<exists>its. fst (app fb e' request' ?w'') =
           Inr \<lparr>status_code = 200, headers = [(''x-request-id'', request_id_of e' request')],
                content = JsonContent (JObj
                  [(''items'', JArr its), (''count'', JInt (int (length its))),
                   (''request_id'', JStr (request_id_of e' request'))])\<rparr>
         \<and> JObj [(''name'', JStr N), (''id'', JInt (next_id (store ?w)))] \<in> set its"
    by blast
  with created above show ?thesis
    by blast
qed


theorem post_items_creates_witness:
  "req_method (POST_items (JObj [(''name'', JStr ''gadget'')])) = ''POST''
   \<and> path (POST_items (JObj [(''name'', JStr ''gadget'')])) = ''/items''
   \<and> body (POST_items (JObj [(''name'', JStr ''gadget'')])) = Some (JObj [(''name'', JStr ''gadget'')])
   \<and> map_of [(''name'', JStr ''gadget'')] ''name'' = Some (JStr ''gadget'')
   \<and> ''gadget'' \<noteq> []
   \<and> req_method (GET ''/items'' []) = ''GET'' \<and> path (GET ''/items'' []) = ''/items''
   \<and> items (store (serve not_found [(example_env, POST_items (JObj [(''name'', JStr ''widget'')]))] init_world))
       = [\<lparr>name = ''widget'', item_id = 1\<rparr>]
   \<and> fst (app not_found example_env (POST_items (JObj [(''name'', JStr ''gadget'')]))
            (serve not_found [(example_env, POST_items (JObj [(''name'', JStr ''widget'')]))] init_world)) =
       Inr \<lparr>status_code = 201, headers = [(''x-request-id'', ''0123456789ab4def8123456789abcdef'')],
            content = JsonContent (JObj
              [(''item'', JObj [(''name'', JStr ''gadget''), (''id'', JInt 2)]),
               (''request_id'', JStr ''0123456789ab4def8123456789abcdef'')])\<rparr>"
proof -
  let ?g = "POST_items (JObj [(''name'', JStr ''gadget'')])"
  let ?rs = "[(example_env, POST_items (JObj [(''name'', JStr ''widget'')]))]"
  have u: "uuid4_hex (urandom example_env) = ''0123456789ab4def8123456789abcdef''"
    by (simp add: example_env_def uuid4_hex_def uuid4_int_def hex_digits_def digit_char_def upt_rec)
  have rid: "request_id_of example_env ?g = ''0123456789ab4def8123456789abcdef''"
    by (simp add: request_id_of_def POST_items_def headers_get_def u)
  have p: "req_method ?g = ''POST''" "path ?g = ''/items''"
    "body ?g = Some (JObj [(''name'', JStr ''gadget'')])"
    "map_of [(''name'', JStr ''gadget'')] ''name'' = Some (JStr ''gadget'')"
    "''gadget'' \<noteq> []"
    "req_method (GET ''/items'' []) = ''GET''" "path (GET ''/items'' []) = ''/items''"
    by (simp_all add: POST_items_def GET_def)
  have "posted_names ?rs = [''widget'']"
    by (simp add: posted_names_def List.map_filter_simps posted_name_def POST_items_def
        ItemIn_validate_def)
  then have "store (serve not_found ?rs init_world) = add_all [''widget''] (store init_world)"
    by (simp only: serve_store)
  then have st: "store (serve not_found ?rs init_world) =
      \<lparr>items = [\<lparr>name = ''widget'', item_id = 1\<rparr>], next_id = 2\<rparr>"
    by (simp add: init_world_def InMemoryStore_init_def InMemoryStore_add_item_def Let_def)
  show ?thesis
    using post_items_creates
      [where request = ?g and fb = not_found and e = example_env and rs = ?rs
         and request' = "GET ''/items'' []" and e' = example_env and rs' = "[]", OF p] p
    by (simp add: st rid del: serve.simps)
qed

lemma posted_names_Cons:
  "posted_names ((e, r) # rs) =
     (case posted_name r of None \<Rightarrow> posted_names rs | Some nm \<Rightarrow> nm # posted_names rs)"
  by (simp add: posted_names_def List.map_filter_simps split: option.splits)

lemma posted_names_all_posts:
  "list_all2 (\<lambda>(e, r) nm. req_method r = ''POST'' \<and> path r = ''/items''
        \<and> (\<exists>kvs. body r = Some (JObj kvs) \<and> map_of kvs ''name'' = Some (JStr nm))) rs nms
   \<Longrightarrow> posted_names rs = nms"
proof (induction rs nms rule: list_all2_induct)
  case Nil
  show ?case by (simp add: posted_names_def List.map_filter_simps)
next
  case (Cons er rs nm nms)
  obtain e r where er: "er = (e, r)"
    by (cases er)
  have "posted_name r = Some nm"
    using Cons.hyps(1) by (auto simp add: er posted_name_valid)
  then show ?case
    by (simp add: er posted_names_Cons Cons.IH)
qed

lemma items_serve:
  "map model_dump (items (store (serve fb rs init_world))) =
     map (\<lambda>(k, nm). JObj [(''name'', JStr nm), (''id'', JInt (int k + 1))])
       (enumerate 0 (posted_names rs))"
  by (simp add: serve_store init_world_def items_add_all InMemoryStore_init_def model_dump_def
      split_def add.commute)

text \<open>
  C6. After any sequence of requests from the start of the process, \<^verbatim>\<open>GET /items\<close>
  answers 200 with the names added by the successful \<^verbatim>\<open>POST /items\<close> requests, in the
  order of these requests, numbered 1, 2, ..., and with their number as \<^verbatim>\<open>count\<close>; it
  leaves the store as it is, and it does not fail. When the sequence consists of N
  \<^verbatim>\<open>POST /items\<close> requests with the names \<open>nms\<close>, these added names are \<open>nms\<close>, so the
  count is N. On the fresh store the list is empty and the count is 0.
\<close>

theorem list_items_after_posts:
  assumes "req_method request = ''GET''" and "path request = ''/items''"
  shows
    "fst (app fb e request (serve fb rs init_world)) =
       Inr \<lparr>status_code = 200, headers = [(''x-request-id'', request_id_of e request)],
            content = JsonContent (JObj
              [(''items'', JArr (map (\<lambda>(k, nm). JObj [(''name'', JStr nm), (''id'', JInt (int k + 1))])
                                   (enumerate 0 (posted_names rs)))),
               (''count'', JInt (int (length (posted_names rs)))),
               (''request_id'', JStr (request_id_of e request))])\<rparr>
     \<and> store (snd (app fb e request (serve fb rs init_world))) = store (serve fb rs init_world)
     \<and> (list_all2 (\<lambda>(e, r) nm. req_method r = ''POST'' \<and> path r = ''/items''
            \<and> (\<exists>kvs. body r = Some (JObj kvs) \<and> map_of kvs ''name'' = Some (JStr nm))) rs nms
         \<longrightarrow> posted_names rs = nms \<and> length nms = length rs)
     \<and> fst (app fb e request init_world) =
       Inr \<lparr>status_code = 200, headers = [(''x-request-id'', request_id_of e request)],
            content = JsonContent (JObj
              [(''items'', JArr []), (''count'', JInt 0),
               (''request_id'', JStr (request_id_of e request))])\<rparr>"
proof -
  have listed: "fst (app fb e request (serve fb rs init_world)) =
       Inr \<lparr>status_code = 200, headers = [(''x-request-id'', request_id_of e request)],
            content = JsonContent (JObj
              [(''items'', JArr (map (\<lambda>(k, nm). JObj [(''name'', JStr nm), (''id'', JInt (int k + 1))])
                                   (enumerate 0 (posted_names rs)))),
               (''count'', JInt (int (length (posted_names rs)))),
               (''request_id'', JStr (request_id_of e request))])\<rparr>
     \<and> store (snd (app fb e request (serve fb rs init_world))) = store (serve fb rs init_world)"
    for rs
  proof -
    let ?w = "serve fb rs init_world"
    have len: "length (items (store ?w)) = length (posted_names rs)"
      using arg_cong [OF items_serve [of fb rs], of length] by simp
    have "route fb (request\<lparr>state_request_id := Some (request_id_of e request)\<rparr>) ?w =
       (Inr (JSONResponse
             (JObj [(''items'', JArr (map model_dump (items (store ?w)))),
                    (''count'', JInt (int (length (items (store ?w))))),
                    (''request_id'', JStr (request_id_of e request))]) 200), ?w)"
      using assms by (rule route_get_items)
    from app_unfold [OF this] show ?thesis
      by (simp add: JSONResponse_def headers_setitem_def lower_x_request_id items_serve len)
  qed
  have posts: "posted_names rs = nms \<and> length nms = length rs"
    if "list_all2 (\<lambda>(e, r) nm. req_method r = ''POST'' \<and> path r = ''/items''
            \<and> (\<exists>kvs. body r = Some (JObj kvs) \<and> map_of kvs ''name'' = Some (JStr nm))) rs nms"
    using that posted_names_all_posts [OF that] by (simp add: list_all2_lengthD)
  have "posted_names [] = []"
    by (simp add: posted_names_def List.map_filter_simps)
  then have empty: "fst (app fb e request init_world) =
       Inr \<lparr>status_code = 200, headers = [(''x-request-id'', request_id_of e request)],
            content = JsonContent (JObj
              [(''items'', JArr []), (''count'', JInt 0),
               (''request_id'', JStr (request_id_of e request))])\<rparr>"
    using listed [of "[]"] by simp
  show ?thesis
    using listed [of rs] posts empty by blast
qed

theorem list_items_after_posts_witness:
  "req_method (GET ''/items'' [(''X-Request-ID'', ''abc'')]) = ''GET''
   \<and> path (GET ''/items'' [(''X-Request-ID'', ''abc'')]) = ''/items''
   \<and> list_all2 (\<lambda>(e, r) nm. req_method r = ''POST'' \<and> path r = ''/items''
            \<and> (\<exists>kvs. body r = Some (JObj kvs) \<and> map_of kvs ''name'' = Some (JStr nm)))
        [(example_env, POST_items (JObj [(''name'', JStr ''widget'')])),
         (example_env, POST_items (JObj [(''name'', JStr ''gadget'')]))]
        [''widget'', ''gadget'']
   \<and> fst (app not_found example_env (GET ''/items'' [(''X-Request-ID'', ''abc'')])
        (serve not_found
           [(example_env, POST_items (JObj [(''name'', JStr ''widget'')])),
            (example_env, POST_items (JObj [(''name'', JStr ''gadget'')]))] init_world)) =
       Inr \<lparr>status_code = 200, headers = [(''x-request-id'', ''abc'')],
            content = JsonContent (JObj
              [(''items'', JArr [JObj [(''name'', JStr ''widget''), (''id'', JInt 1)],
                                JObj [(''name'', JStr ''gadget''), (''id'', JInt 2)]]),
               (''count'', JInt 2),
               (''request_id'', JStr ''abc'')])\<rparr>"
proof -
  let ?rs = "[(example_env, POST_items (JObj [(''name'', JStr ''widget'')])),
         (example_env, POST_items (JObj [(''name'', JStr ''gadget'')]))]"
  let ?get = "GET ''/items'' [(''X-Request-ID'', ''abc'')]"
  have rid: "request_id_of example_env ?get = ''abc''"
    by (simp add: request_id_of_def GET_def asgi_headers_def headers_get_def lower_def lower_char_def)
  have p: "req_method ?get = ''GET''" "path ?get = ''/items''"
    by (simp_all add: GET_def)
  have l: "list_all2 (\<lambda>(e, r) nm. req_method r = ''POST'' \<and> path r = ''/items''
            \<and> (\<exists>kvs. body r = Some (JObj kvs) \<and> map_of kvs ''name'' = Some (JStr nm)))
        ?rs [''widget'', ''gadget'']"
    by (simp add: POST_items_def)
  show ?thesis
    using list_items_after_posts
      [where request = ?get and fb = not_found and e = example_env and rs = ?rs
         and nms = "[''widget'', ''gadget'']", OF p] p l
    by (simp add: rid enumerate_simps del: serve.simps)
qed

section \<open>Metrics and the log\<close>

lemma counter_value_inc:
  "counter_value (counter_inc l m) l' = (if l' = l then counter_value m l + 1 else counter_value m l')"
  by (simp add: counter_inc_def counter_value_def)

lemma histogram_at_observe:
  "histogram_at (histogram_observe l x m) l' =
     (if l' = l then observe x (histogram_at m l) else histogram_at m l')"
  by (simp add: histogram_observe_def histogram_at_def)

lemma observe_buckets_length: "length (observe_buckets bounds x cs) = length cs"
  by (induction bounds x cs rule: observe_buckets.induct) simp_all

lemma observe_buckets_sum:
  "length bounds < length cs \<Longrightarrow> sum_list (observe_buckets bounds x cs) = sum_list cs + 1"
  by (induction bounds x cs rule: observe_buckets.induct) simp_all

lemma h_count_observe:
  "length (h_buckets h) = length DEFAULT_BUCKETS + 1 \<Longrightarrow> h_count (observe x h) = h_count h + 1"
  by (simp add: h_count_def observe_def observe_buckets_sum)

lemma h_sum_observe: "h_sum (observe x h) = h_sum h + x"
  by (simp add: observe_def)

lemma registry_ok_at:
  "registry_ok m \<Longrightarrow> length (h_buckets (histogram_at m l)) = length DEFAULT_BUCKETS + 1"
  by (cases "m l") (auto simp add: registry_ok_def histogram_at_def new_histogram_def intro: ranI)

lemma registry_ok_observe:
  assumes "registry_ok m"
  shows "registry_ok (histogram_observe l x m)"
proof -
  have "length (h_buckets (observe x (histogram_at m l))) = length DEFAULT_BUCKETS + 1"
    using registry_ok_at [OF assms, of l] by (simp add: observe_def observe_buckets_length)
  then show ?thesis
    using assms unfolding registry_ok_def histogram_observe_def ran_def
    by (auto split: if_splits)
qed

lemma registry_ok_empty: "registry_ok Map.empty"
  by (simp add: registry_ok_def)

lemma app_metrics:
  "\<exists>resp. fst (app fb e request w) = Inr resp
     \<and> REQUEST_COUNT (snd (app fb e request w)) =
         counter_inc (req_method request, path request, str_int (status_code resp)) (REQUEST_COUNT w)
     \<and> REQUEST_LATENCY (snd (app fb e request w)) =
         histogram_observe (req_method request, path request, str_int (status_code resp))
           (t_end e - t_start e) (REQUEST_LATENCY w)"
proof -
  obtain resp w1 where r:
    "route fb (request\<lparr>state_request_id := Some (request_id_of e request)\<rparr>) w = (Inr resp, w1)"
    "REQUEST_COUNT w1 = REQUEST_COUNT w" "REQUEST_LATENCY w1 = REQUEST_LATENCY w"
    using route_returns [where fb = fb and r = request and rid = "request_id_of e request" and w = w]
    by blast
  show ?thesis
    unfolding app_def
    using dispatch_Inr [where call_next = "route fb" and e = e and request = request, OF r(1)] r(2,3)
    by simp
qed

lemma app_metrics_mono:
  assumes "registry_ok (REQUEST_LATENCY w)"
  shows "registry_ok (REQUEST_LATENCY (snd (app fb e request w)))
     \<and> counter_value (REQUEST_COUNT w) l \<le> counter_value (REQUEST_COUNT (snd (app fb e request w))) l
     \<and> h_count (histogram_at (REQUEST_LATENCY w) l)
         \<le> h_count (histogram_at (REQUEST_LATENCY (snd (app fb e request w))) l)"
proof -
  obtain resp :: response where r:
    "REQUEST_COUNT (snd (app fb e request w)) =
         counter_inc (req_method request, path request, str_int (status_code resp)) (REQUEST_COUNT w)"
    "REQUEST_LATENCY (snd (app fb e request w)) =
         histogram_observe (req_method request, path request, str_int (status_code resp))
           (t_end e - t_start e) (REQUEST_LATENCY w)"
    using app_metrics [where fb = fb and e = e and request = request and w = w] by blast
  show ?thesis
    using assms registry_ok_at [OF assms]
    by (simp add: r counter_value_inc histogram_at_observe registry_ok_observe h_count_observe)
qed

lemma serve_metrics_mono:
  "registry_ok (REQUEST_LATENCY w) \<Longrightarrow>
     registry_ok (REQUEST_LATENCY (serve fb rs w))
     \<and> counter_value (REQUEST_COUNT w) l \<le> counter_value (REQUEST_COUNT (serve fb rs w)) l
     \<and> h_count (histogram_at (REQUEST_LATENCY w) l)
         \<le> h_count (histogram_at (REQUEST_LATENCY (serve fb rs w)) l)"
proof (induction rs arbitrary: w)
  case Nil
  then show ?case by simp
next
  case (Cons er rs)
  obtain e r where er: "er = (e, r)"
    by (cases er)
  note step = app_metrics_mono [OF Cons.prems, where fb = fb and e = e and request = r and l = l]
  from step have "registry_ok (REQUEST_LATENCY (snd (app fb e r w)))"
    by blast
  from Cons.IH [OF this] step show ?case
    by (simp add: er)
qed

lemma serve_append: "serve fb (rs @ rs') w = serve fb rs' (serve fb rs w)"
  by (induction rs arbitrary: w) auto

text \<open>
  C7. A request whose handler returned a response increments the counter of its label
  set (method, path, status as text) by exactly 1 and adds exactly one observation, the
  elapsed time, to the histogram of the same label set; every other label set is left
  as it was. In the service every request is such a request. Along the life of the
  process no counter and no observation count ever decreases: nothing resets them.
\<close>

theorem request_metrics_recorded:
  "(\<forall>resp w1. call_next (request\<lparr>state_request_id := Some (request_id_of e request)\<rparr>) w = (Inr resp, w1)
        \<and> registry_ok (REQUEST_LATENCY w1) \<longrightarrow>
      counter_value (REQUEST_COUNT (snd (dispatch call_next e request w)))
          (req_method request, path request, str_int (status_code resp))
        = counter_value (REQUEST_COUNT w1) (req_method request, path request, str_int (status_code resp)) + 1
      \<and> h_count (histogram_at (REQUEST_LATENCY (snd (dispatch call_next e request w)))
          (req_method request, path request, str_int (status_code resp)))
        = h_count (histogram_at (REQUEST_LATENCY w1)
            (req_method request, path request, str_int (status_code resp))) + 1
      \<and> h_sum (histogram_at (REQUEST_LATENCY (snd (dispatch call_next e request w)))
          (req_method request, path request, str_int (status_code resp)))
        = h_sum (histogram_at (REQUEST_LATENCY w1)
            (req_method request, path request, str_int (status_code resp))) + (t_end e - t_start e)
      \<and> (\<forall>l. l \<noteq> (req_method request, path request, str_int (status_code resp)) \<longrightarrow>
            counter_value (REQUEST_COUNT (snd (dispatch call_next e request w))) l
              = counter_value (REQUEST_COUNT w1) l
            \<and> histogram_at (REQUEST_LATENCY (snd (dispatch call_next e request w))) l
              = histogram_at (REQUEST_LATENCY w1) l))
   \<and> (\<exists>resp. fst (app fb e request (serve fb rs init_world)) = Inr resp
        \<and> counter_value (REQUEST_COUNT (snd (app fb e request (serve fb rs init_world))))
            (req_method request, path request, str_int (status_code resp))
          = counter_value (REQUEST_COUNT (serve fb rs init_world))
              (req_method request, path request, str_int (status_code resp)) + 1
        \<and> h_count (histogram_at (REQUEST_LATENCY (snd (app fb e request (serve fb rs init_world))))
            (req_method request, path request, str_int (status_code resp)))
          = h_count (histogram_at (REQUEST_LATENCY (serve fb rs init_world))
              (req_method request, path request, str_int (status_code resp))) + 1)
   \<and> counter_value (REQUEST_COUNT (serve fb rs init_world)) l'
        \<le> counter_value (REQUEST_COUNT (serve fb (rs @ rs') init_world)) l'
   \<and> h_count (histogram_at (REQUEST_LATENCY (serve fb rs init_world)) l')
        \<le> h_count (histogram_at (REQUEST_LATENCY (serve fb (rs @ rs') init_world)) l')"
proof -
  let ?w = "serve fb rs init_world"
  have ok0: "registry_ok (REQUEST_LATENCY init_world)"
    by (simp add: init_world_def registry_ok_empty)
  have ok: "registry_ok (REQUEST_LATENCY ?w)"
    using serve_metrics_mono [OF ok0] by blast
  have mw: "counter_value (REQUEST_COUNT (snd (dispatch call_next e request w)))
          (req_method request, path request, str_int (status_code resp))
        = counter_value (REQUEST_COUNT w1) (req_method request, path request, str_int (status_code resp)) + 1
      \<and> h_count (histogram_at (REQUEST_LATENCY (snd (dispatch call_next e request w)))
          (req_method request, path request, str_int (status_code resp)))
        = h_count (histogram_at (REQUEST_LATENCY w1)
            (req_method request, path request, str_int (status_code resp))) + 1
      \<and> h_sum (histogram_at (REQUEST_LATENCY (snd (dispatch call_next e request w)))
          (req_method request, path request, str_int (status_code resp)))
        = h_sum (histogram_at (REQUEST_LATENCY w1)
            (req_method request, path request, str_int (status_code resp))) + (t_end e - t_start e)
      \<and> (\<forall>l. l \<noteq> (req_method request, path request, str_int (status_code resp)) \<longrightarrow>
            counter_value (REQUEST_COUNT (snd (dispatch call_next e request w))) l
              = counter_value (REQUEST_COUNT w1) l
            \<and> histogram_at (REQUEST_LATENCY (snd (dispatch call_next e request w))) l
              = histogram_at (REQUEST_LATENCY w1) l)"
    if c: "call_next (request\<lparr>state_request_id := Some (request_id_of e request)\<rparr>) w = (Inr resp, w1)"
      and r: "registry_ok (REQUEST_LATENCY w1)" for resp w1
    using registry_ok_at [OF r]
    by (simp add: dispatch_Inr [where call_next = call_next and e = e and request = request, OF c]
        counter_value_inc histogram_at_observe h_count_observe
        h_sum_observe)
  obtain resp where a: "fst (app fb e request ?w) = Inr resp"
    "REQUEST_COUNT (snd (app fb e request ?w)) =
         counter_inc (req_method request, path request, str_int (status_code resp)) (REQUEST_COUNT ?w)"
    "REQUEST_LATENCY (snd (app fb e request ?w)) =
         histogram_observe (req_method request, path request, str_int (status_code resp))
           (t_end e - t_start e) (REQUEST_LATENCY ?w)"
    using app_metrics [where fb = fb and e = e and request = request and w = ?w] by blast
  have service: "\<exists>resp. fst (app fb e request ?w) = Inr resp
        \<and> counter_value (REQUEST_COUNT (snd (app fb e request ?w)))
            (req_method request, path request, str_int (status_code resp))
          = counter_value (REQUEST_COUNT ?w)
              (req_method request, path request, str_int (status_code resp)) + 1
        \<and> h_count (histogram_at (REQUEST_LATENCY (snd (app fb e request ?w)))
            (req_method request, path request, str_int (status_code resp)))
          = h_count (histogram_at (REQUEST_LATENCY ?w)
              (req_method request, path request, str_int (status_code resp))) + 1"
    using a(1) registry_ok_at [OF ok]
    by (simp add: a(2,3) counter_value_inc histogram_at_observe h_count_observe)
  have mono: "counter_value (REQUEST_COUNT ?w) l'
        \<le> counter_value (REQUEST_COUNT (serve fb (rs @ rs') init_world)) l'
      \<and> h_count (histogram_at (REQUEST_LATENCY ?w) l')
        \<le> h_count (histogram_at (REQUEST_LATENCY (serve fb (rs @ rs') init_world)) l')"
    using serve_metrics_mono [OF ok, where l = l' and fb = fb and rs = rs']
    by (simp add: serve_append)
  show ?thesis
    using mw service mono by blast
qed

theorem request_metrics_recorded_witness:
  "health ((GET ''/health'' [(''X-Request-ID'', ''abc'')])
             \<lparr>state_request_id := Some (request_id_of example_env (GET ''/health'' [(''X-Request-ID'', ''abc'')]))\<rparr>)
      init_world
     = (Inr (JSONResponse (JObj [(''status'', JStr ''ok''), (''request_id'', JStr ''abc'')]) 200), init_world)
   \<and> registry_ok (REQUEST_LATENCY init_world)
   \<and> counter_value (REQUEST_COUNT init_world) (''GET'', ''/health'', ''200'') = 0
   \<and> counter_value
        (REQUEST_COUNT (snd (dispatch health example_env (GET ''/health'' [(''X-Request-ID'', ''abc'')]) init_world)))
        (''GET'', ''/health'', ''200'') = 1
   \<and> h_count (histogram_at
        (REQUEST_LATENCY (snd (dispatch health example_env (GET ''/health'' [(''X-Request-ID'', ''abc'')]) init_world)))
        (''GET'', ''/health'', ''200'')) = 1"
proof -
  let ?get = "GET ''/health'' [(''X-Request-ID'', ''abc'')]"
  let ?resp = "JSONResponse (JObj [(''status'', JStr ''ok''), (''request_id'', JStr ''abc'')]) 200"
  have rid: "request_id_of example_env ?get = ''abc''"
    by (simp add: request_id_of_def GET_def asgi_headers_def headers_get_def lower_def lower_char_def)
  have h: "health (?get\<lparr>state_request_id := Some (request_id_of example_env ?get)\<rparr>) init_world
     = (Inr ?resp, init_world)"
    by (simp add: rid handlers_with_id)
  have ok: "registry_ok (REQUEST_LATENCY init_world)"
    by (simp add: init_world_def registry_ok_empty)
  have l: "(req_method ?get, path ?get, str_int (status_code ?resp)) = (''GET'', ''/health'', ''200'')"
    by (simp add: GET_def JSONResponse_def str_int_def str_nat.simps digit_char_def)
  have c0: "counter_value (REQUEST_COUNT init_world) (''GET'', ''/health'', ''200'') = 0"
    by (simp add: init_world_def counter_value_def)
  have h0: "h_count (histogram_at (REQUEST_LATENCY init_world) (''GET'', ''/health'', ''200'')) = 0"
    by (simp add: init_world_def histogram_at_def new_histogram_def h_count_def)
  note inst = request_metrics_recorded
      [where call_next = health and e = example_env and w = init_world and request = ?get]
  from inst h ok have
    "counter_value (REQUEST_COUNT (snd (dispatch health example_env ?get init_world)))
        (req_method ?get, path ?get, str_int (status_code ?resp))
      = counter_value (REQUEST_COUNT init_world) (req_method ?get, path ?get, str_int (status_code ?resp)) + 1
     \<and> h_count (histogram_at (REQUEST_LATENCY (snd (dispatch health example_env ?get init_world)))
          (req_method ?get, path ?get, str_int (status_code ?resp)))
      = h_count (histogram_at (REQUEST_LATENCY init_world)
          (req_method ?get, path ?get, str_int (status_code ?resp))) + 1"
    by blast
  then have "counter_value (REQUEST_COUNT (snd (dispatch health example_env ?get init_world)))
        (''GET'', ''/health'', ''200'') = 1
     \<and> h_count (histogram_at (REQUEST_LATENCY (snd (dispatch health example_env ?get init_world)))
          (''GET'', ''/health'', ''200'')) = 1"
    by (simp only: l c0 h0) simp
  with h ok c0 show ?thesis
    by blast
qed

lemma printable_digits: "list_all printable ''0123456789abcdef''"
  by (simp add: printable_def)

lemma printable_digit_char: "printable (digit_char d)"
  using printable_digits digit_char_hex [of d] unfolding list_all_iff by blast

lemma printable_str_nat: "list_all printable (str_nat n)"
proof (induction n rule: str_nat.induct)
  case (1 n)
  show ?case
  proof (cases "n < 10")
    case True
    then show ?thesis
      by (subst str_nat.simps) (simp add: printable_digit_char)
  next
    case False
    then show ?thesis
      using "1.IH" by (subst str_nat.simps) (simp add: printable_digit_char)
  qed
qed

lemma printable_str_int: "list_all printable (str_int i)"
  by (simp add: str_int_def printable_str_nat) (simp add: printable_def)

lemma printable_frac_digits: "list_all printable (frac_digits m)"
  by (simp add: frac_digits_def printable_digit_char) (simp add: printable_def)

lemma printable_float_repr: "list_all printable (float_repr q)"
  by (simp add: float_repr_def Let_def printable_str_nat printable_frac_digits)
     (simp add: printable_def)

lemma printable_escape_char: "list_all printable (escape_char c)"
proof -
  have bs: "printable (CHR 0x5C)" "printable (CHR 0x22)" "printable CHR ''b''" "printable CHR ''f''"
    "printable CHR ''n''" "printable CHR ''r''" "printable CHR ''t''" "printable CHR ''u''"
    by (simp_all add: printable_def)
  have other: "printable c" if "\<not> ((of_char c :: nat) < 32 \<or> 126 < (of_char c :: nat))"
    using that by (auto simp add: printable_def)
  show ?thesis
    unfolding escape_char_def Let_def hex4_def
    using bs other by (simp add: printable_digit_char)
qed

lemma printable_encode: "list_all printable (encode_basestring_ascii s)"
proof -
  have "list_all printable (concat (map escape_char s))"
    by (induction s) (simp_all add: printable_escape_char)
  moreover have "printable (CHR 0x22)"
    by (simp add: printable_def)
  ultimately show ?thesis
    by (simp add: encode_basestring_ascii_def)
qed

lemma printable_punct:
  "printable CHR ''[''" "printable CHR '']''" "printable CHR ''{''" "printable CHR ''}''"
  "printable CHR '',''" "printable CHR '' ''" "printable CHR '':''"
  "printable CHR ''n''" "printable CHR ''u''" "printable CHR ''l''" "printable CHR ''t''"
  "printable CHR ''r''" "printable CHR ''e''" "printable CHR ''f''" "printable CHR ''a''"
  "printable CHR ''s''"
  by (simp_all add: printable_def)

lemma printable_dumps:
  "list_all printable (dumps j)"
  "list_all printable (dumps_list js)"
  "list_all printable (dumps_items kvs)"
  by (induction j and js and kvs rule: dumps_dumps_list_dumps_items.induct)
     (simp_all add: printable_punct printable_str_int printable_float_repr printable_encode)

lemma printable_no_newline:
  assumes "list_all printable s"
  shows "CHR 0x0A \<notin> set s \<and> CHR 0x0D \<notin> set s"
proof -
  have "\<not> printable (CHR 0x0A)" "\<not> printable (CHR 0x0D)"
    by (simp_all add: printable_def)
  with assms show ?thesis
    unfolding list_all_iff by blast
qed

lemma round_half_even_close: "\<bar>of_int (round_half_even y) - y\<bar> \<le> 1 / 2"
proof -
  have "of_int \<lfloor>y\<rfloor> \<le> y" "y < of_int \<lfloor>y\<rfloor> + 1"
    by linarith+
  then show ?thesis
    unfolding round_half_even_def Let_def by (auto simp add: abs_le_iff)
qed

lemma py_round_3:
  "(\<exists>k::int. py_round x 3 = of_int k / 1000) \<and> \<bar>py_round x 3 - x\<bar> \<le> 1 / 2000"
proof -
  let ?r = "round_half_even (x * 1000)"
  have eq: "py_round x 3 = of_int ?r / 1000"
    by (simp add: py_round_def)
  have "\<bar>of_int ?r - x * 1000\<bar> \<le> 1 / 2"
    by (rule round_half_even_close)
  then have "\<bar>of_int ?r / 1000 - x\<bar> \<le> 1 / 2000"
    by (simp add: abs_le_iff field_simps)
  then have "\<bar>py_round x 3 - x\<bar> \<le> 1 / 2000"
    by (simp only: eq)
  moreover have "\<exists>k::int. py_round x 3 = of_int k / 1000"
    using eq by blast
  ultimately show ?thesis
    by blast
qed

lemma hex_val_digit_char: "hex_val (digit_char d) = Some (d mod 16)"
proof -
  have "map_of (zip ''0123456789abcdef'' [0..<16]) (''0123456789abcdef'' ! (d mod 16))
      = Some ([0..<16] ! (d mod 16))"
    by (rule map_of_zip_nth) simp_all
  then show ?thesis
    by (simp add: hex_val_def digit_char_def del: upt_Suc)
qed

lemma digits_value_snoc:
  "d < 10 \<Longrightarrow>
   digits_value a (xs @ [digit_char d]) = map_option (\<lambda>v. 10 * v + d) (digits_value a xs)"
  by (induction xs arbitrary: a) (simp_all add: hex_val_digit_char split: option.splits)

lemma digits_value_str_nat: "digits_value 0 (str_nat n) = Some n"
proof (induction n rule: str_nat.induct)
  case (1 n)
  show ?case
  proof (cases "n < 10")
    case True
    then show ?thesis
      by (subst str_nat.simps) (simp add: hex_val_digit_char)
  next
    case False
    have "n mod 10 < 10"
      by simp
    from digits_value_snoc [OF this, of 0 "str_nat (n div 10)"] False "1.IH"
    show ?thesis
      by (subst str_nat.simps) simp
  qed
qed

lemma str_nat_nonempty: "str_nat n \<noteq> []"
  by (subst str_nat.simps) simp

lemma nat_of_text_str_nat: "nat_of_text (str_nat n) = Some n"
  by (simp add: nat_of_text_def str_nat_nonempty digits_value_str_nat)

lemma set_str_nat: "c \<in> set (str_nat n) \<Longrightarrow> \<exists>d. c = digit_char d"
proof (induction n rule: str_nat.induct)
  case (1 n)
  show ?case
  proof (cases "n < 10")
    case True
    then show ?thesis
      using "1.prems" by (subst (asm) str_nat.simps) auto
  next
    case False
    then show ?thesis
      using "1.prems" "1.IH" by (subst (asm) str_nat.simps) auto
  qed
qed

lemma str_nat_no_punct: "CHR ''-'' \<notin> set (str_nat n)" "CHR ''.'' \<notin> set (str_nat n)"
proof -
  have "CHR ''-'' \<notin> set ''0123456789abcdef''" "CHR ''.'' \<notin> set ''0123456789abcdef''"
    by simp_all
  then have "CHR ''-'' \<noteq> digit_char d" "CHR ''.'' \<noteq> digit_char d" for d
    using digit_char_hex [of d] by metis+
  then show "CHR ''-'' \<notin> set (str_nat n)" "CHR ''.'' \<notin> set (str_nat n)"
    using set_str_nat [of _ n] by blast+
qed

lemma int_of_text_str_int: "int_of_text (str_int i) = Some i"
proof (cases "i < 0")
  case True
  then show ?thesis
    by (simp add: int_of_text_def str_int_def nat_of_text_str_nat)
next
  case False
  obtain c cs where s: "str_nat (nat i) = c # cs"
    using str_nat_nonempty [of "nat i"] by (cases "str_nat (nat i)") auto
  have "c \<noteq> CHR ''-''"
    using str_nat_no_punct(1) [of "nat i"] by (auto simp add: s)
  then have "int_of_text (str_nat (nat i)) = map_option int (nat_of_text (str_nat (nat i)))"
    by (simp add: int_of_text_def s)
  with False show ?thesis
    by (simp add: str_int_def nat_of_text_str_nat)
qed

lemma hex_val_decimal: "d < 10 \<Longrightarrow> hex_val (digit_char d) = Some d"
  by (simp add: hex_val_digit_char)

lemma frac_digits_value:
  "\<exists>v. nat_of_text (frac_digits m) = Some v
       \<and> (of_nat v :: rat) / 10 ^ length (frac_digits m) = of_nat (m mod 1000) / 1000"
proof -
  let ?A = "m div 100 mod 10" and ?B = "m div 10 mod 10" and ?C = "m mod 10"
  have lt: "?A < 10" "?B < 10" "?C < 10"
    by simp_all
  have s100: "m mod 100 = 10 * ?B + ?C"
    using mod_mult2_eq [of m 10 10] by simp
  have split: "m mod 1000 = 100 * ?A + 10 * ?B + ?C"
    using mod_mult2_eq [of m 100 10] s100 by simp
  consider "m mod 1000 = 0" | "m mod 1000 \<noteq> 0" "m mod 100 = 0"
    | "m mod 1000 \<noteq> 0" "m mod 100 \<noteq> 0" "m mod 10 = 0"
    | "m mod 1000 \<noteq> 0" "m mod 100 \<noteq> 0" "m mod 10 \<noteq> 0"
    by blast
  then show ?thesis
  proof cases
    case 1
    have "hex_val CHR ''0'' = Some 0"
      using hex_val_digit_char [of 0] by (simp add: digit_char_def)
    with 1 show ?thesis
      by (simp add: frac_digits_def nat_of_text_def)
  next
    case 2
    then have "?B = 0" "?C = 0"
      using s100 by simp_all
    with split have "m mod 1000 = 100 * ?A"
      by simp
    then have "(of_nat (m mod 1000) :: rat) = 100 * of_nat ?A"
      by (metis of_nat_mult of_nat_numeral)
    with 2 show ?thesis
      by (simp add: frac_digits_def nat_of_text_def hex_val_decimal lt)
  next
    case 3
    then have "?C = 0"
      by simp
    with split have "m mod 1000 = 10 * (10 * ?A + ?B)"
      by simp
    then have "(of_nat (m mod 1000) :: rat) = 10 * of_nat (10 * ?A + ?B)"
      by (metis of_nat_mult of_nat_numeral)
    with 3 show ?thesis
      by (simp add: frac_digits_def nat_of_text_def hex_val_decimal lt)
  next
    case 4
    have "(of_nat (m mod 1000) :: rat) = of_nat (10 * (10 * ?A + ?B) + ?C)"
      using split by (simp only: ) (simp add: algebra_simps)
    with 4 show ?thesis
      by (simp add: frac_digits_def nat_of_text_def hex_val_decimal lt)
  qed
qed

lemma takeWhile_str_nat:
  "takeWhile (\<lambda>c. c \<noteq> CHR ''.'') (str_nat a @ CHR ''.'' # fr) = str_nat a"
proof -
  have "takeWhile (\<lambda>c. c \<noteq> CHR ''.'') (str_nat a @ CHR ''.'' # fr)
      = takeWhile (\<lambda>c. c \<noteq> CHR ''.'') (str_nat a)"
    by (rule takeWhile_tail) simp
  also have "\<dots> = str_nat a"
    using str_nat_no_punct(2) [of a] by (simp add: takeWhile_eq_all_conv) metis
  finally show ?thesis .
qed

lemma decimal_unsigned:
  assumes "CHR ''-'' \<noteq> hd (str_nat a @ CHR ''.'' # frac_digits m)"
  shows "decimal_of_text (str_nat a @ CHR ''.'' # frac_digits m)
     = Some (of_nat a + of_nat (m mod 1000) / 1000)"
proof -
  obtain v where v: "nat_of_text (frac_digits m) = Some v"
      "(of_nat v :: rat) / 10 ^ length (frac_digits m) = of_nat (m mod 1000) / 1000"
    using frac_digits_value [of m] by blast
  show ?thesis
    using assms
    by (simp add: decimal_of_text_def Let_def takeWhile_str_nat nat_of_text_str_nat v
        del: hd_append2)
qed

lemma decimal_negative:
  assumes "t \<noteq> []" "hd t \<noteq> CHR ''-''"
  shows "decimal_of_text (CHR ''-'' # t) = map_option uminus (decimal_of_text t)"
proof -
  define ip where "ip = takeWhile (\<lambda>c. c \<noteq> CHR ''.'') t"
  define fr where "fr = drop (Suc (length ip)) t"
  have n: "decimal_of_text (CHR ''-'' # t) =
      (if length ip < length t
       then (case (nat_of_text ip, nat_of_text fr) of
               (Some a, Some b) \<Rightarrow> Some (- 1 * (of_nat a + of_nat b / 10 ^ length fr))
             | _ \<Rightarrow> None)
       else None)"
    unfolding decimal_of_text_def Let_def ip_def fr_def by (simp cong: option.case_cong)
  have p: "decimal_of_text t =
      (if length ip < length t
       then (case (nat_of_text ip, nat_of_text fr) of
               (Some a, Some b) \<Rightarrow> Some (1 * (of_nat a + of_nat b / 10 ^ length fr))
             | _ \<Rightarrow> None)
       else None)"
    unfolding decimal_of_text_def Let_def ip_def fr_def using assms
    by (simp cong: option.case_cong)
  show ?thesis
    unfolding n p by (cases "nat_of_text ip"; cases "nat_of_text fr"; simp)
qed

lemma of_nat_div_mod_1000: "(of_nat (m div 1000) :: rat) + of_nat (m mod 1000) / 1000 = of_nat m / 1000"
proof -
  have "m = 1000 * (m div 1000) + m mod 1000"
    by simp
  then have "(of_nat m :: rat) = 1000 * of_nat (m div 1000) + of_nat (m mod 1000)"
    by (metis of_nat_add of_nat_mult of_nat_numeral)
  then show ?thesis
    by simp
qed

lemma decimal_of_text_float_repr:
  "decimal_of_text (float_repr (of_int k / 1000)) = Some (of_int k / 1000)"
proof -
  let ?q = "of_int k / 1000 :: rat"
  let ?m = "nat \<bar>k\<bar>"
  let ?t = "str_nat (?m div 1000) @ CHR ''.'' # frac_digits ?m"
  have "\<bar>?q\<bar> * 1000 = of_int \<bar>k\<bar>"
    by simp
  then have m: "nat \<lfloor>\<bar>?q\<bar> * 1000\<rfloor> = ?m"
    by (simp only: floor_of_int)
  obtain c cs where s: "str_nat (?m div 1000) = c # cs"
    using str_nat_nonempty [of "?m div 1000"] by (cases "str_nat (?m div 1000)") auto
  have "c \<noteq> CHR ''-''"
    using str_nat_no_punct(1) [of "?m div 1000"] unfolding s by auto
  then have hd: "hd ?t \<noteq> CHR ''-''" "?t \<noteq> []"
    unfolding s by simp_all
  have val: "decimal_of_text ?t = Some (of_nat ?m / 1000)"
    using decimal_unsigned [of "?m div 1000" ?m] hd(1) by (simp add: of_nat_div_mod_1000)
  show ?thesis
  proof (cases "k < 0")
    case True
    then have "float_repr ?q = CHR ''-'' # ?t"
      unfolding float_repr_def m Let_def by simp
    moreover have "(of_nat ?m :: rat) = - of_int k"
      using True by simp
    ultimately show ?thesis
      using decimal_negative [OF hd(2) hd(1)] val by simp
  next
    case False
    then have "float_repr ?q = ?t"
      unfolding float_repr_def m Let_def by simp
    moreover have "(of_nat ?m :: rat) = of_int k"
      using False by simp
    ultimately show ?thesis
      using val by simp
  qed
qed

lemma char_by_code: "(of_char c :: nat) = of_char d \<Longrightarrow> c = d"
  by (simp only: of_char_eq_iff)

lemma of_char_less_256: "(of_char c :: nat) < 256"
proof -
  have "(of_char c :: nat) mod 256 = of_char c"
    by (rule of_char_mod_256)
  then show ?thesis
    by (metis mod_less_divisor zero_less_numeral)
qed

lemma hex4_value:
  fixes n :: nat
  assumes "n < 256"
  shows "((n div 4096 mod 16 * 16 + n div 256 mod 16) * 16 + n div 16 mod 16) * 16 + n mod 16 = n"
proof -
  have "n div 4096 = 0" "n div 256 = 0" "n div 16 < 16"
    using assms by simp_all
  then show ?thesis
    by simp
qed

lemma decode_plain:
  assumes "c \<noteq> CHR 0x22" "c \<noteq> CHR 0x5C" "\<not> (of_char c :: nat) < 32"
  shows "decode_chars (c # rest) = map_option ((#) c) (decode_chars rest)"
  using assms by (simp add: decode_chars.simps)

lemma decode_short:
  assumes "unescape e = Some x" "e \<noteq> CHR ''u''"
  shows "decode_chars (CHR 0x5C # e # rest) = map_option ((#) x) (decode_chars rest)"
  using assms by (simp add: decode_chars.simps)

lemma decode_u:
  assumes "n < 256"
  shows "decode_chars ([CHR 0x5C, CHR ''u''] @ hex4 n @ rest)
     = map_option ((#) (char_of n)) (decode_chars rest)"
  using assms
  by (simp add: decode_chars.simps hex4_def hex_val_digit_char hex4_value)

lemma decode_escape_char:
  "decode_chars (escape_char c @ rest) = map_option ((#) c) (decode_chars rest)"
proof -
  let ?n = "of_char c :: nat"
  have short: "decode_chars ([CHR 0x5C, e] @ rest) = map_option ((#) c) (decode_chars rest)"
    if "unescape e = Some d" "e \<noteq> CHR ''u''" "?n = of_char d" for e d
    using decode_short [OF that(1,2), of rest] char_by_code [OF that(3)] by simp
  consider "?n = 92" | "?n = 34" | "?n = 8" | "?n = 12" | "?n = 10" | "?n = 13" | "?n = 9"
    | "?n \<notin> {92, 34, 8, 12, 10, 13, 9}" "?n < 32 \<or> 126 < ?n"
    | "?n \<notin> {92, 34, 8, 12, 10, 13, 9}" "\<not> (?n < 32 \<or> 126 < ?n)"
    by blast
  then show ?thesis
  proof cases
    case 1
    then show ?thesis
      using short [of "CHR 0x5C" "CHR 0x5C"] by (simp add: escape_char_def unescape_def)
  next
    case 2
    then show ?thesis
      using short [of "CHR 0x22" "CHR 0x22"] by (simp add: escape_char_def unescape_def)
  next
    case 3
    then show ?thesis
      using short [of "CHR ''b''" "CHR 0x08"] by (simp add: escape_char_def unescape_def)
  next
    case 4
    then show ?thesis
      using short [of "CHR ''f''" "CHR 0x0C"] by (simp add: escape_char_def unescape_def)
  next
    case 5
    then show ?thesis
      using short [of "CHR ''n''" "CHR 0x0A"] by (simp add: escape_char_def unescape_def)
  next
    case 6
    then show ?thesis
      using short [of "CHR ''r''" "CHR 0x0D"] by (simp add: escape_char_def unescape_def)
  next
    case 7
    then show ?thesis
      using short [of "CHR ''t''" "CHR 0x09"] by (simp add: escape_char_def unescape_def)
  next
    case 8
    have "char_of ?n = c"
      by simp
    with 8 show ?thesis
      using decode_u [OF of_char_less_256 [of c], of rest] by (simp add: escape_char_def)
  next
    case 9
    then have "c \<noteq> CHR 0x22" "c \<noteq> CHR 0x5C" "\<not> ?n < 32"
      by auto
    from decode_plain [OF this, of rest] 9 show ?thesis
      by (simp add: escape_char_def)
  qed
qed

lemma decode_chars_escaped:
  "decode_chars (concat (map escape_char s) @ [CHR 0x22]) = Some s"
proof (induction s)
  case Nil
  show ?case by (simp add: decode_chars.simps)
next
  case (Cons c s)
  show ?case
    using decode_escape_char [of c "concat (map escape_char s) @ [CHR 0x22]"]
    by (simp add: Cons.IH)
qed

lemma decode_string_encode: "decode_string (encode_basestring_ascii s) = Some s"
  by (simp add: decode_string_def encode_basestring_ascii_def decode_chars_escaped)

lemma encode_keys:
  "encode_basestring_ascii ''request_id'' = [CHR 0x22] @ ''request_id'' @ [CHR 0x22]"
  "encode_basestring_ascii ''method'' = [CHR 0x22] @ ''method'' @ [CHR 0x22]"
  "encode_basestring_ascii ''path'' = [CHR 0x22] @ ''path'' @ [CHR 0x22]"
  "encode_basestring_ascii ''status'' = [CHR 0x22] @ ''status'' @ [CHR 0x22]"
  "encode_basestring_ascii ''latency_ms'' = [CHR 0x22] @ ''latency_ms'' @ [CHR 0x22]"
  by (simp_all add: encode_basestring_ascii_def escape_char_def)

lemma dumps_log_record:
  "dumps (JObj [(''request_id'', JStr rid), (''method'', JStr m), (''path'', JStr p),
                (''status'', JInt st), (''latency_ms'', JFloat ms)]) =
     ''{'' @ [CHR 0x22] @ ''request_id'' @ [CHR 0x22] @ '': '' @ encode_basestring_ascii rid
        @ '', '' @ [CHR 0x22] @ ''method'' @ [CHR 0x22] @ '': '' @ encode_basestring_ascii m
        @ '', '' @ [CHR 0x22] @ ''path'' @ [CHR 0x22] @ '': '' @ encode_basestring_ascii p
        @ '', '' @ [CHR 0x22] @ ''status'' @ [CHR 0x22] @ '': '' @ str_int st
        @ '', '' @ [CHR 0x22] @ ''latency_ms'' @ [CHR 0x22] @ '': '' @ float_repr ms
        @ ''}''"
  by (simp add: encode_keys)

text \<open>
  C9. When the handler returns a response, the middleware appends exactly one line to
  the log, after the response header is set. The line is the \<^verbatim>\<open>json.dumps\<close> text of an
  object with exactly the fields \<^verbatim>\<open>request_id\<close>, \<^verbatim>\<open>method\<close>, \<^verbatim>\<open>path\<close>, \<^verbatim>\<open>status\<close> and
  \<^verbatim>\<open>latency_ms\<close>, in this order: an opening brace, the five quoted names each followed
  by a colon and the value, separated by commas, and a closing brace. The three strings
  are written quoted and escaped, and reading them back gives the request id, the
  method and the path; the status is written in decimal and reads back as the status
  code of the response that is returned; \<^verbatim>\<open>latency_ms\<close> is written as a decimal number
  that reads back as the elapsed milliseconds rounded to three decimals: a whole
  number of thousandths, at most half a thousandth away from the float product
  \<^verbatim>\<open>latency * 1000\<close>. In the service every request is answered, so every request adds
  exactly one such line. The text of any JSON value consists of printable ASCII
  characters only: it has no line break and is a single line.
\<close>

theorem log_record_emitted:
  "(\<forall>resp w1. call_next (request\<lparr>state_request_id := Some (request_id_of e request)\<rparr>) w = (Inr resp, w1)
      \<longrightarrow> log_lines (snd (dispatch call_next e request w)) =
            log_lines w1 @
            [''{'' @ [CHR 0x22] @ ''request_id'' @ [CHR 0x22] @ '': '' @ encode_basestring_ascii (request_id_of e request)
             @ '', '' @ [CHR 0x22] @ ''method'' @ [CHR 0x22] @ '': '' @ encode_basestring_ascii (req_method request)
             @ '', '' @ [CHR 0x22] @ ''path'' @ [CHR 0x22] @ '': '' @ encode_basestring_ascii (path request)
             @ '', '' @ [CHR 0x22] @ ''status'' @ [CHR 0x22] @ '': '' @ str_int (status_code resp)
             @ '', '' @ [CHR 0x22] @ ''latency_ms'' @ [CHR 0x22] @ '': '' @ float_repr (py_round (float_round e ((t_end e - t_start e) * 1000)) 3)
             @ ''}'']
          \<and> (\<exists>resp'. fst (dispatch call_next e request w) = Inr resp'
                \<and> status_code resp' = status_code resp
                \<and> headers_get ''x-request-id'' (headers resp') = Some (request_id_of e request)))
   \<and> (\<exists>resp'. fst (app fb e request w) = Inr resp'
         \<and> headers_get ''x-request-id'' (headers resp') = Some (request_id_of e request)
         \<and> log_lines (snd (app fb e request w)) =
             log_lines w @
             [''{'' @ [CHR 0x22] @ ''request_id'' @ [CHR 0x22] @ '': '' @ encode_basestring_ascii (request_id_of e request)
              @ '', '' @ [CHR 0x22] @ ''method'' @ [CHR 0x22] @ '': '' @ encode_basestring_ascii (req_method request)
              @ '', '' @ [CHR 0x22] @ ''path'' @ [CHR 0x22] @ '': '' @ encode_basestring_ascii (path request)
              @ '', '' @ [CHR 0x22] @ ''status'' @ [CHR 0x22] @ '': '' @ str_int (status_code resp')
              @ '', '' @ [CHR 0x22] @ ''latency_ms'' @ [CHR 0x22] @ '': '' @ float_repr (py_round (float_round e ((t_end e - t_start e) * 1000)) 3)
              @ ''}''])
   \<and> dumps (JObj [(''request_id'', JStr rid), (''method'', JStr m), (''path'', JStr p),
                  (''status'', JInt st), (''latency_ms'', JFloat ms)]) =
        ''{'' @ [CHR 0x22] @ ''request_id'' @ [CHR 0x22] @ '': '' @ encode_basestring_ascii rid
        @ '', '' @ [CHR 0x22] @ ''method'' @ [CHR 0x22] @ '': '' @ encode_basestring_ascii m
        @ '', '' @ [CHR 0x22] @ ''path'' @ [CHR 0x22] @ '': '' @ encode_basestring_ascii p
        @ '', '' @ [CHR 0x22] @ ''status'' @ [CHR 0x22] @ '': '' @ str_int st
        @ '', '' @ [CHR 0x22] @ ''latency_ms'' @ [CHR 0x22] @ '': '' @ float_repr ms
        @ ''}''
   \<and> decode_string (encode_basestring_ascii s) = Some s
   \<and> int_of_text (str_int i) = Some i
   \<and> decimal_of_text (float_repr (py_round y 3)) = Some (py_round y 3)
   \<and> list_all printable (dumps j) \<and> CHR 0x0A \<notin> set (dumps j) \<and> CHR 0x0D \<notin> set (dumps j)
   \<and> (\<exists>k::int. py_round (float_round e ((t_end e - t_start e) * 1000)) 3 = of_int k / 1000)
   \<and> \<bar>py_round (float_round e ((t_end e - t_start e) * 1000)) 3
        - float_round e ((t_end e - t_start e) * 1000)\<bar> \<le> 1 / 2000"
proof -
  have mw: "log_lines (snd (dispatch call_next e request w)) =
            log_lines w1 @
            [''{'' @ [CHR 0x22] @ ''request_id'' @ [CHR 0x22] @ '': '' @ encode_basestring_ascii (request_id_of e request)
             @ '', '' @ [CHR 0x22] @ ''method'' @ [CHR 0x22] @ '': '' @ encode_basestring_ascii (req_method request)
             @ '', '' @ [CHR 0x22] @ ''path'' @ [CHR 0x22] @ '': '' @ encode_basestring_ascii (path request)
             @ '', '' @ [CHR 0x22] @ ''status'' @ [CHR 0x22] @ '': '' @ str_int (status_code resp)
             @ '', '' @ [CHR 0x22] @ ''latency_ms'' @ [CHR 0x22] @ '': '' @ float_repr (py_round (float_round e ((t_end e - t_start e) * 1000)) 3)
             @ ''}'']
          \<and> (\<exists>resp'. fst (dispatch call_next e request w) = Inr resp'
                \<and> status_code resp' = status_code resp
                \<and> headers_get ''x-request-id'' (headers resp') = Some (request_id_of e request))"
    if c: "call_next (request\<lparr>state_request_id := Some (request_id_of e request)\<rparr>) w = (Inr resp, w1)"
    for resp w1
    unfolding dispatch_Inr [where call_next = call_next and e = e and request = request, OF c]
      log_record_def dumps_log_record
    by (simp add: headers_get_setitem)
  obtain resp w1 where r:
    "route fb (request\<lparr>state_request_id := Some (request_id_of e request)\<rparr>) w = (Inr resp, w1)"
    "log_lines w1 = log_lines w"
    using route_returns [where fb = fb and r = request and rid = "request_id_of e request" and w = w]
    by blast
  have service: "\<exists>resp'. fst (app fb e request w) = Inr resp'
         \<and> headers_get ''x-request-id'' (headers resp') = Some (request_id_of e request)
         \<and> log_lines (snd (app fb e request w)) =
             log_lines w @
             [''{'' @ [CHR 0x22] @ ''request_id'' @ [CHR 0x22] @ '': '' @ encode_basestring_ascii (request_id_of e request)
              @ '', '' @ [CHR 0x22] @ ''method'' @ [CHR 0x22] @ '': '' @ encode_basestring_ascii (req_method request)
              @ '', '' @ [CHR 0x22] @ ''path'' @ [CHR 0x22] @ '': '' @ encode_basestring_ascii (path request)
              @ '', '' @ [CHR 0x22] @ ''status'' @ [CHR 0x22] @ '': '' @ str_int (status_code resp')
              @ '', '' @ [CHR 0x22] @ ''latency_ms'' @ [CHR 0x22] @ '': '' @ float_repr (py_round (float_round e ((t_end e - t_start e) * 1000)) 3)
              @ ''}'']"
    unfolding app_def
      dispatch_Inr [where call_next = "route fb" and e = e and request = request, OF r(1)]
      log_record_def dumps_log_record
    by (simp add: r(2) headers_get_setitem)
  have line: "list_all printable (dumps j) \<and> CHR 0x0A \<notin> set (dumps j) \<and> CHR 0x0D \<notin> set (dumps j)"
    using printable_dumps(1) [of j] printable_no_newline [of "dumps j"] by blast
  obtain k :: int where "py_round y 3 = of_int k / 1000"
    using py_round_3 [of y] by blast
  then have dec: "decimal_of_text (float_repr (py_round y 3)) = Some (py_round y 3)"
    by (simp only: decimal_of_text_float_repr)
  show ?thesis
    using mw service line dec decode_string_encode [of s] int_of_text_str_int [of i]
      dumps_log_record [of rid m p st ms]
      py_round_3 [of "float_round e ((t_end e - t_start e) * 1000)"]
    by blast
qed

theorem log_record_emitted_witness:
  "health ((GET ''/health'' [(''X-Request-ID'', ''abc'')])
             \<lparr>state_request_id := Some (request_id_of example_env (GET ''/health'' [(''X-Request-ID'', ''abc'')]))\<rparr>)
      init_world
     = (Inr (JSONResponse (JObj [(''status'', JStr ''ok''), (''request_id'', JStr ''abc'')]) 200), init_world)
   \<and> log_lines (snd (dispatch health example_env (GET ''/health'' [(''X-Request-ID'', ''abc'')]) init_world)) =
       [''{'' @ [CHR 0x22] @ ''request_id'' @ [CHR 0x22] @ '': '' @ [CHR 0x22] @ ''abc'' @ [CHR 0x22]
         @ '', '' @ [CHR 0x22] @ ''method'' @ [CHR 0x22] @ '': '' @ [CHR 0x22] @ ''GET'' @ [CHR 0x22]
         @ '', '' @ [CHR 0x22] @ ''path'' @ [CHR 0x22] @ '': '' @ [CHR 0x22] @ ''/health'' @ [CHR 0x22]
         @ '', '' @ [CHR 0x22] @ ''status'' @ [CHR 0x22] @ '': '' @ ''200''
         @ '', '' @ [CHR 0x22] @ ''latency_ms'' @ [CHR 0x22] @ '': '' @ ''12.345''
         @ ''}'']
   \<and> decode_string ([CHR 0x22] @ ''/health'' @ [CHR 0x22]) = Some ''/health''
   \<and> int_of_text ''200'' = Some 200
   \<and> decimal_of_text ''12.345'' = Some (12345 / 1000)"
proof -
  let ?get = "GET ''/health'' [(''X-Request-ID'', ''abc'')]"
  have rid: "request_id_of example_env ?get = ''abc''"
    by (simp add: request_id_of_def GET_def asgi_headers_def headers_get_def lower_def lower_char_def)
  have h: "health (?get\<lparr>state_request_id := Some (request_id_of example_env ?get)\<rparr>) init_world
     = (Inr (JSONResponse (JObj [(''status'', JStr ''ok''), (''request_id'', JStr ''abc'')]) 200), init_world)"
    by (simp add: rid handlers_with_id)
  have lat: "py_round (float_round example_env ((t_end example_env - t_start example_env) * 1000)) 3
      = 12345 / 1000"
    by (simp add: example_env_def py_round_def round_half_even_def Let_def)
  have req: "req_method ?get = ''GET''" "path ?get = ''/health''"
    by (simp_all add: GET_def)
  have sc: "status_code (JSONResponse c 200) = 200" for c
    by (simp add: JSONResponse_def)
  have l0: "log_lines init_world = []"
    by (simp add: init_world_def)
  have enc: "encode_basestring_ascii ''abc'' = [CHR 0x22] @ ''abc'' @ [CHR 0x22]"
    "encode_basestring_ascii ''GET'' = [CHR 0x22] @ ''GET'' @ [CHR 0x22]"
    "encode_basestring_ascii ''/health'' = [CHR 0x22] @ ''/health'' @ [CHR 0x22]"
    by (simp_all add: encode_basestring_ascii_def escape_char_def)
  have num: "str_int 200 = ''200''" "float_repr (12345 / 1000) = ''12.345''"
    by (simp_all add: str_int_def str_nat.simps digit_char_def float_repr_def frac_digits_def)
  have y: "py_round (12345 / 1000) 3 = 12345 / 1000"
    by (simp add: py_round_def round_half_even_def Let_def)
  note inst = log_record_emitted
      [where call_next = health and e = example_env and w = init_world and request = ?get
         and s = "''/health''" and i = 200 and y = "12345 / 1000"]
  from inst h have "log_lines (snd (dispatch health example_env ?get init_world)) =
      log_lines init_world @
      [''{'' @ [CHR 0x22] @ ''request_id'' @ [CHR 0x22] @ '': '' @ encode_basestring_ascii (request_id_of example_env ?get)
       @ '', '' @ [CHR 0x22] @ ''method'' @ [CHR 0x22] @ '': '' @ encode_basestring_ascii (req_method ?get)
       @ '', '' @ [CHR 0x22] @ ''path'' @ [CHR 0x22] @ '': '' @ encode_basestring_ascii (path ?get)
       @ '', '' @ [CHR 0x22] @ ''status'' @ [CHR 0x22] @ '': '' @ str_int (status_code
           (JSONResponse (JObj [(''status'', JStr ''ok''), (''request_id'', JStr ''abc'')]) 200))
       @ '', '' @ [CHR 0x22] @ ''latency_ms'' @ [CHR 0x22] @ '': '' @ float_repr (py_round (float_round example_env
           ((t_end example_env - t_start example_env) * 1000)) 3)
       @ ''}'']"
    by blast
  then have "log_lines (snd (dispatch health example_env ?get init_world)) =
       [''{'' @ [CHR 0x22] @ ''request_id'' @ [CHR 0x22] @ '': '' @ [CHR 0x22] @ ''abc'' @ [CHR 0x22]
         @ '', '' @ [CHR 0x22] @ ''method'' @ [CHR 0x22] @ '': '' @ [CHR 0x22] @ ''GET'' @ [CHR 0x22]
         @ '', '' @ [CHR 0x22] @ ''path'' @ [CHR 0x22] @ '': '' @ [CHR 0x22] @ ''/health'' @ [CHR 0x22]
         @ '', '' @ [CHR 0x22] @ ''status'' @ [CHR 0x22] @ '': '' @ ''200''
         @ '', '' @ [CHR 0x22] @ ''latency_ms'' @ [CHR 0x22] @ '': '' @ ''12.345''
         @ ''}'']"
    by (simp only: rid lat req sc l0 enc num append_Nil) simp
  moreover from inst have "decode_string (encode_basestring_ascii ''/health'') = Some ''/health''"
    "int_of_text (str_int 200) = Some 200"
    "decimal_of_text (float_repr (py_round (12345 / 1000) 3)) = Some (py_round (12345 / 1000) 3)"
    by blast+
  then have "decode_string ([CHR 0x22] @ ''/health'' @ [CHR 0x22]) = Some ''/health''"
    "int_of_text ''200'' = Some 200" "decimal_of_text ''12.345'' = Some (12345 / 1000)"
    by (simp_all only: enc num y)
  ultimately show ?thesis
    using h by blast
qed

end
